theory Spec2Isabelle
  imports Complex_Main
begin

section \<open>Points, vectors and errors\<close>

text \<open>
  The module \<^verbatim>\<open>manim/mobject/geometry.py\<close> builds planar paths of cubic Bezier control
  points. A point is modelled by a complex number \<open>x + iy\<close> (the paths of this module lie in the
  plane \<open>z = 0\<close>; rotations are about the axis \<^verbatim>\<open>OUT\<close>), and numpy's float64 arithmetic by
  exact real arithmetic. Exceptions are values of the type \<open>error\<close>; a method that can raise
  returns \<open>error + 'a\<close>.
\<close>

type_synonym point = complex

definition ORIGIN :: point where "ORIGIN = 0"
definition LEFT :: point where "LEFT = - 1"
definition RIGHT :: point where "RIGHT = 1"
definition UP :: point where "UP = \<i>"
definition PI :: real where "PI = pi"
definition TAU :: real where "TAU = 2 * pi"

datatype error =
    ValueError            \<comment> \<open>raise ValueError(...) in ArcBetweenPoints\<close>
  | ZeroDivisionError     \<comment> \<open>Python float division by zero\<close>
  | IndexError            \<comment> \<open>indexing past the end of a sequence\<close>
  | TipNotFound           \<comment> \<open>raise Exception("tip not found")\<close>
  | NoPoints              \<comment> \<open>start or end of an empty point buffer\<close>
  | ClosedLoop            \<comment> \<open>put_start_and_end_on of a curve whose start is its end\<close>
  | LineIntersectionError \<comment> \<open>line_intersection of parallel lines\<close>
  | DanglingReference     \<comment> \<open>an object id outside the store; Python cannot reach it\<close>
  | NonFiniteGeometry     \<comment> \<open>no exception: a float inf or nan is written into the points\<close>

definition bind_r :: "error + 'a \<Rightarrow> ('a \<Rightarrow> error + 'b) \<Rightarrow> error + 'b" where
  "bind_r r f = (case r of Inl e \<Rightarrow> Inl e | Inr x \<Rightarrow> f x)"

subsection \<open>Helpers of \<^verbatim>\<open>utils.space_ops\<close>\<close>

text \<open>
  Modelled from the spec: the vector helpers imported from \<^verbatim>\<open>..utils.space_ops\<close> are not
  part of the sources. \<open>get_norm\<close> is the Euclidean norm, \<open>normalize\<close> divides by it (the zero
  vector stays zero), \<open>angle_of_vector\<close> is the polar angle in \<open>(-\<pi>, \<pi>]\<close> (0 for the zero
  vector), \<open>rotate_vector\<close> turns a vector about the normal of the plane, and
  \<open>line_intersection\<close> fails on parallel lines.
\<close>

definition get_norm :: "point \<Rightarrow> real" where
  "get_norm v = sqrt ((Re v)\<^sup>2 + (Im v)\<^sup>2)"

definition normalize :: "point \<Rightarrow> point" where
  "normalize v = (if get_norm v > 0 then v / of_real (get_norm v) else 0)"

definition angle_of_vector :: "point \<Rightarrow> real" where
  "angle_of_vector v = Arg v"

definition rotate_vector :: "point \<Rightarrow> real \<Rightarrow> point" where
  "rotate_vector v a = v * cis a"

definition cross2 :: "point \<Rightarrow> point \<Rightarrow> real" where
  "cross2 u v = Re u * Im v - Im u * Re v"

definition line_intersection :: "point \<times> point \<Rightarrow> point \<times> point \<Rightarrow> error + point" where
  "line_intersection line1 line2 =
     (let p = fst line1; r = snd line1 - fst line1;
          q = fst line2; s = snd line2 - fst line2;
          d = cross2 r s
      in if d = 0 then Inl LineIntersectionError
         else Inr (p + of_real (cross2 (q - p) s / d) * r))"

section \<open>The data model\<close>

text \<open>
  An \<^verbatim>\<open>ArrowTip\<close> object: its point buffer and its \<^verbatim>\<open>length\<close> field. Tips are objects
  with identity (the curve tests \<^verbatim>\<open>self.tip in self\<close> and \<^verbatim>\<open>Arrow.scale\<close> writes into an old tip
  object), so a curve refers to its tips by object id, and the objects live in a store.
\<close>

record arrow_tip =
  tip_points :: "point list"
  tip_size :: real

datatype radius = RNone | RFin real | RInf

datatype cls = Arc_cls | ArcBetweenPoints_cls | Line_cls | Arrow_cls

text \<open>
  One record holds the fields of the classes \<^verbatim>\<open>TipableVMobject\<close>, \<^verbatim>\<open>Arc\<close>,
  \<^verbatim>\<open>ArcBetweenPoints\<close>, \<^verbatim>\<open>Line\<close> and \<^verbatim>\<open>Arrow\<close>; \<open>cls\<close> is the dynamic class, which
  selects the overriding method where Python dispatches on \<^verbatim>\<open>self\<close>. The attributes
  \<^verbatim>\<open>tip\<close> and \<^verbatim>\<open>start_tip\<close> are \<open>None\<close> until \<^verbatim>\<open>asign_tip_attr\<close> sets them
  (\<^verbatim>\<open>hasattr\<close> is \<open>\<noteq> None\<close>). The fields \<^verbatim>\<open>start\<close> and \<^verbatim>\<open>end\<close> are \<open>start_attr\<close> and
  \<open>end_attr\<close>.
\<close>

record mobject =
  cls :: cls
  points :: "point list"
  submobjects :: "nat list"
  store :: "nat \<Rightarrow> arrow_tip option"
  next_id :: nat
  tip :: "nat option"
  start_tip :: "nat option"
  tip_length :: real
  radius :: radius
  num_components :: nat
  arc_center :: point
  start_angle :: real
  angle :: real
  failed_to_get_center :: bool
  buff :: real
  path_arc :: "real option"
  start_attr :: point
  end_attr :: point
  stroke_width :: real
  initial_stroke_width :: real
  max_tip_length_to_length_ratio :: real
  max_stroke_width_to_length_ratio :: real

section \<open>The drawable-shape collaborator\<close>

text \<open>
  Modelled from the spec: the base classes \<^verbatim>\<open>Mobject\<close> and \<^verbatim>\<open>VMobject\<close> are not part of
  the sources. The spec describes what this module consumes from them: a settable ordered point
  buffer whose first and last entries are the start and the end of the path, and hierarchical
  child add and remove.
\<close>

definition VMobject_get_start :: "point list \<Rightarrow> error + point" where
  "VMobject_get_start ps = (case ps of [] \<Rightarrow> Inl NoPoints | p # _ \<Rightarrow> Inr p)"

definition VMobject_get_end :: "point list \<Rightarrow> error + point" where
  "VMobject_get_end ps = (case ps of [] \<Rightarrow> Inl NoPoints | _ # _ \<Rightarrow> Inr (last ps))"

definition list_update_add :: "nat list \<Rightarrow> nat \<Rightarrow> nat list" where
  "list_update_add xs x = filter (\<lambda>e. e \<noteq> x) xs @ [x]"

definition add :: "mobject \<Rightarrow> nat \<Rightarrow> mobject" where
  "add m t = m\<lparr>submobjects := list_update_add (submobjects m) t\<rparr>"

definition remove :: "mobject \<Rightarrow> nat \<Rightarrow> mobject" where
  "remove m t = m\<lparr>submobjects := remove1 t (submobjects m)\<rparr>"

definition deref :: "mobject \<Rightarrow> nat \<Rightarrow> error + arrow_tip" where
  "deref m t = (case store m t of None \<Rightarrow> Inl DanglingReference | Some a \<Rightarrow> Inr a)"

subsection \<open>Affine transforms\<close>

text \<open>
  Modelled from the spec: shift, scale and rotate about a point, applied to the point buffer of
  the shape and of each of its children (the spec detaches tips before a scale because a
  transform of a tipped curve transforms the tips with it). The default point of a scale or a
  rotation is the centre of the bounding box of these points.
\<close>

definition map_tip :: "(point \<Rightarrow> point) \<Rightarrow> arrow_tip \<Rightarrow> arrow_tip" where
  "map_tip f t = t\<lparr>tip_points := map f (tip_points t)\<rparr>"

definition apply_points_function :: "(point \<Rightarrow> point) \<Rightarrow> mobject \<Rightarrow> mobject" where
  "apply_points_function f m =
     m\<lparr>points := map f (points m),
       store := (\<lambda>i. if i \<in> set (submobjects m) then map_option (map_tip f) (store m i)
                     else store m i)\<rparr>"

definition scale_about :: "real \<Rightarrow> point \<Rightarrow> point \<Rightarrow> point" where
  "scale_about factor about p = about + of_real factor * (p - about)"

definition rotate_about :: "real \<Rightarrow> point \<Rightarrow> point \<Rightarrow> point" where
  "rotate_about a about p = about + cis a * (p - about)"

definition stretch_about :: "real \<Rightarrow> nat \<Rightarrow> point \<Rightarrow> point \<Rightarrow> point" where
  "stretch_about factor axis about p =
     (if axis = 0 then Complex (Re about + factor * (Re p - Re about)) (Im p)
      else Complex (Re p) (Im about + factor * (Im p - Im about)))"

fun max_list :: "real list \<Rightarrow> real" where
  "max_list [] = 0"
| "max_list [x] = x"
| "max_list (x # xs) = max x (max_list xs)"

fun min_list_r :: "real list \<Rightarrow> real" where
  "min_list_r [] = 0"
| "min_list_r [x] = x"
| "min_list_r (x # xs) = min x (min_list_r xs)"

definition coord :: "nat \<Rightarrow> point \<Rightarrow> real" where
  "coord axis p = (if axis = 0 then Re p else Im p)"

definition length_over_dim :: "point list \<Rightarrow> nat \<Rightarrow> real" where
  "length_over_dim ps axis = max_list (map (coord axis) ps) - min_list_r (map (coord axis) ps)"

definition center_of :: "point list \<Rightarrow> point" where
  "center_of ps =
     Complex ((min_list_r (map Re ps) + max_list (map Re ps)) / 2)
             ((min_list_r (map Im ps) + max_list (map Im ps)) / 2)"

definition all_points :: "mobject \<Rightarrow> point list" where
  "all_points m =
     points m @ concat (map (\<lambda>i. case store m i of None \<Rightarrow> [] | Some t \<Rightarrow> tip_points t)
                            (submobjects m))"

definition get_center :: "mobject \<Rightarrow> point" where
  "get_center m = center_of (all_points m)"

definition shift :: "point \<Rightarrow> mobject \<Rightarrow> mobject" where
  "shift v m = apply_points_function (\<lambda>p. p + v) m"

definition Mobject_scale :: "real \<Rightarrow> point option \<Rightarrow> mobject \<Rightarrow> mobject" where
  "Mobject_scale factor about_point m =
     (let about = (case about_point of None \<Rightarrow> get_center m | Some a \<Rightarrow> a)
      in apply_points_function (scale_about factor about) m)"

definition rotate :: "real \<Rightarrow> point option \<Rightarrow> mobject \<Rightarrow> mobject" where
  "rotate a about_point m =
     (let about = (case about_point of None \<Rightarrow> get_center m | Some c \<Rightarrow> c)
      in apply_points_function (rotate_about a about) m)"

subsection \<open>Bezier paths\<close>

text \<open>
  Modelled from the spec: a path is a sequence of control points read in groups of four
  (anchor, handle, handle, anchor), with operations to set it from corners (straight segments,
  the handles on the chord), to extract a part of it and to measure its arc length.
\<close>

definition interpolate :: "point \<Rightarrow> point \<Rightarrow> real \<Rightarrow> point" where
  "interpolate a b alpha = of_real (1 - alpha) * a + of_real alpha * b"

fun set_anchors_and_handles ::
  "point list \<Rightarrow> point list \<Rightarrow> point list \<Rightarrow> point list \<Rightarrow> point list" where
  "set_anchors_and_handles (a1 # as1) (h1 # hs1) (h2 # hs2) (a2 # as2) =
     a1 # h1 # h2 # a2 # set_anchors_and_handles as1 hs1 hs2 as2"
| "set_anchors_and_handles _ _ _ _ = []"

definition set_points_as_corners :: "point list \<Rightarrow> point list" where
  "set_points_as_corners cs =
     set_anchors_and_handles
       (map (\<lambda>(a, b). interpolate a b 0) (zip (butlast cs) (tl cs)))
       (map (\<lambda>(a, b). interpolate a b (1 / 3)) (zip (butlast cs) (tl cs)))
       (map (\<lambda>(a, b). interpolate a b (2 / 3)) (zip (butlast cs) (tl cs)))
       (map (\<lambda>(a, b). interpolate a b 1) (zip (butlast cs) (tl cs)))"

definition get_num_curves :: "point list \<Rightarrow> nat" where
  "get_num_curves ps = length ps div 4"

definition bezier :: "point list \<Rightarrow> real \<Rightarrow> point" where
  "bezier ps t =
     (\<Sum>k < length ps. of_real (real ((length ps - 1) choose k) * (1 - t) ^ (length ps - 1 - k) * t ^ k)
                         * ps ! k)"

definition get_nth_curve_points :: "point list \<Rightarrow> nat \<Rightarrow> point list" where
  "get_nth_curve_points ps n = take 4 (drop (4 * n) ps)"

definition integer_interpolate :: "nat \<Rightarrow> nat \<Rightarrow> real \<Rightarrow> nat \<times> real" where
  "integer_interpolate lo hi alpha =
     (if alpha \<ge> 1 then (hi - 1, 1)
      else if alpha \<le> 0 then (lo, 0)
      else (nat \<lfloor>(1 - alpha) * real lo + alpha * real hi\<rfloor>,
            frac (real (hi - lo) * alpha)))"

definition point_from_proportion :: "point list \<Rightarrow> real \<Rightarrow> point" where
  "point_from_proportion ps alpha =
     (let (n, residue) = integer_interpolate 0 (get_num_curves ps) alpha
      in bezier (get_nth_curve_points ps n) residue)"

definition partial_bezier_points :: "point list \<Rightarrow> real \<Rightarrow> real \<Rightarrow> point list" where
  "partial_bezier_points ps a b =
     (if a = 1 then replicate (length ps) (last ps)
      else let a_to_1 = map (\<lambda>i. bezier (drop i ps) a) [0..<length ps];
               end_prop = (b - a) / (1 - a)
           in map (\<lambda>i. bezier (take (i + 1) a_to_1) end_prop) [0..<length ps])"

definition pointwise_become_partial :: "point list \<Rightarrow> real \<Rightarrow> real \<Rightarrow> point list" where
  "pointwise_become_partial ps a b =
     (if a \<le> 0 \<and> b \<ge> 1 then ps
      else let num_cubics = get_num_curves ps;
               (lower_index, lower_residue) = integer_interpolate 0 num_cubics a;
               (upper_index, upper_residue) = integer_interpolate 0 num_cubics b
           in if num_cubics = 0 then []
              else if lower_index = upper_index
              then partial_bezier_points (get_nth_curve_points ps lower_index)
                     lower_residue upper_residue
              else partial_bezier_points (get_nth_curve_points ps lower_index) lower_residue 1
                   @ concat (map (get_nth_curve_points ps) [lower_index + 1..<upper_index])
                   @ partial_bezier_points (get_nth_curve_points ps upper_index) 0 upper_residue)"

definition polyline_length :: "point list \<Rightarrow> real" where
  "polyline_length qs = sum_list (map (\<lambda>(p, q). get_norm (q - p)) (zip (butlast qs) (tl qs)))"

definition linspace :: "real \<Rightarrow> real \<Rightarrow> nat \<Rightarrow> real list" where
  "linspace a b n =
     (if n = 1 then [a] else map (\<lambda>i. a + (b - a) * real i / real (n - 1)) [0..<n])"

definition get_arc_length :: "point list \<Rightarrow> real" where
  "get_arc_length ps =
     polyline_length (map (point_from_proportion ps)
                          (linspace 0 1 (4 * get_num_curves ps + 1)))"

section \<open>TipableVMobject: checks and getters\<close>

definition has_tip :: "mobject \<Rightarrow> bool" where
  "has_tip m = (case tip m of None \<Rightarrow> False | Some t \<Rightarrow> t \<in> set (submobjects m))"

definition has_start_tip :: "mobject \<Rightarrow> bool" where
  "has_start_tip m = (case start_tip m of None \<Rightarrow> False | Some t \<Rightarrow> t \<in> set (submobjects m))"

definition get_tips :: "mobject \<Rightarrow> nat list" where
  "get_tips m =
     (let result = [];
          result = (case tip m of None \<Rightarrow> result | Some t \<Rightarrow> list_update_add result t);
          result = (case start_tip m of None \<Rightarrow> result | Some t \<Rightarrow> list_update_add result t)
      in result)"

definition get_tip :: "mobject \<Rightarrow> error + nat" where
  "get_tip m =
     (let tips = get_tips m
      in if length tips = 0 then Inl TipNotFound else Inr (tips ! 0))"

definition get_first_handle :: "mobject \<Rightarrow> error + point" where
  "get_first_handle m =
     (if 1 < length (points m) then Inr (points m ! 1) else Inl IndexError)"

definition get_last_handle :: "mobject \<Rightarrow> error + point" where
  "get_last_handle m =
     (if 2 \<le> length (points m) then Inr (points m ! (length (points m) - 2))
      else Inl IndexError)"

definition get_end :: "mobject \<Rightarrow> error + point" where
  "get_end m =
     (if has_tip m
      then bind_r (deref m (the (tip m))) (\<lambda>t. VMobject_get_start (tip_points t))
      else VMobject_get_end (points m))"

definition get_start :: "mobject \<Rightarrow> error + point" where
  "get_start m =
     (if has_start_tip m
      then bind_r (deref m (the (start_tip m))) (\<lambda>t. VMobject_get_start (tip_points t))
      else VMobject_get_start (points m))"

definition get_start_and_end :: "mobject \<Rightarrow> error + point \<times> point" where
  "get_start_and_end m =
     bind_r (get_start m) (\<lambda>s. bind_r (get_end m) (\<lambda>e. Inr (s, e)))"

definition get_length :: "mobject \<Rightarrow> error + real" where
  "get_length m =
     bind_r (get_start_and_end m) (\<lambda>(s, e). Inr (get_norm (s - e)))"

text \<open>
  Modelled from the spec: \<^verbatim>\<open>Mobject.put_start_and_end_on\<close> is not part of the sources. It
  scales, rotates and shifts the shape so that its logical start and end land on the given
  points; on a curve whose start is its end it cannot work (the comment in
  \<^verbatim>\<open>reset_endpoints_based_on_tip\<close>) and raises.
\<close>

definition Mobject_put_start_and_end_on :: "point \<Rightarrow> point \<Rightarrow> mobject \<Rightarrow> error + mobject" where
  "Mobject_put_start_and_end_on start end' m =
     bind_r (get_start_and_end m) (\<lambda>(curr_start, curr_end).
       let curr_vect = curr_end - curr_start
       in if curr_vect = 0 then Inl ClosedLoop
          else let target_vect = end' - start;
                   m = Mobject_scale (get_norm target_vect / get_norm curr_vect)
                         (Some curr_start) m;
                   m = rotate (angle_of_vector target_vect - angle_of_vector curr_vect)
                         (Some curr_start) m;
                   m = shift (start - curr_start) m
               in Inr m)"

section \<open>Arc and ArcBetweenPoints\<close>

text \<open>
  The field defaults of the dataclasses. \<^verbatim>\<open>DEFAULT_STROKE_WIDTH\<close> (4) and
  \<^verbatim>\<open>MED_SMALL_BUFF\<close> (0.25) come from \<^verbatim>\<open>..constants\<close>.
\<close>

definition DEFAULT_ARROW_TIP_LENGTH :: real where "DEFAULT_ARROW_TIP_LENGTH = 35 / 100"
definition MED_SMALL_BUFF :: real where "MED_SMALL_BUFF = 25 / 100"

definition new_mobject :: "cls \<Rightarrow> mobject" where
  "new_mobject c =
     \<lparr>cls = c, points = [], submobjects = [], store = (\<lambda>_. None), next_id = 0,
      tip = None, start_tip = None, tip_length = DEFAULT_ARROW_TIP_LENGTH,
      radius = RFin 1, num_components = 9, arc_center = ORIGIN, start_angle = 0,
      angle = TAU / 4, failed_to_get_center = False,
      buff = 0, path_arc = None, start_attr = LEFT, end_attr = RIGHT,
      stroke_width = 4, initial_stroke_width = 4,
      max_tip_length_to_length_ratio = 25 / 100, max_stroke_width_to_length_ratio = 5\<rparr>"

definition set_pre_positioned_points :: "mobject \<Rightarrow> error + mobject" where
  "set_pre_positioned_points m =
     (let n = num_components m;
          anchors = map (\<lambda>a. of_real (cos a) * RIGHT + of_real (sin a) * UP)
                        (linspace (start_angle m) (start_angle m + angle m) n)
      in if n = 0 then Inl IndexError
         else if n = 1 then Inl ZeroDivisionError
         else let d_theta = angle m / (real n - 1);
                  tangent_vectors = map (\<lambda>z. Complex (- Im z) (Re z)) anchors;
                  handles1 = map (\<lambda>(a, t). a + of_real (d_theta / 3) * t)
                                 (zip (butlast anchors) (butlast tangent_vectors));
                  handles2 = map (\<lambda>(a, t). a - of_real (d_theta / 3) * t)
                                 (zip (tl anchors) (tl tangent_vectors))
              in Inr (m\<lparr>points := set_anchors_and_handles
                                     (butlast anchors) handles1 handles2 (tl anchors)\<rparr>))"

definition Arc_generate_points :: "mobject \<Rightarrow> error + mobject" where
  "Arc_generate_points m =
     bind_r (set_pre_positioned_points m) (\<lambda>m.
       let m = (if radius m = RNone then m\<lparr>radius := RFin 1\<rparr> else m)
       in case radius m of
            RFin r \<Rightarrow> Inr (shift (arc_center m) (Mobject_scale r (Some ORIGIN) m))
          | _ \<Rightarrow> Inl NonFiniteGeometry)"


definition get_arc_center :: "mobject \<Rightarrow> error + point \<times> mobject" where
  "get_arc_center m =
     (case points m of
        a1 # h1 # h2 # a2 # _ \<Rightarrow>
          let t1 = h1 - a1; t2 = h2 - a2;
              n1 = rotate_vector t1 (TAU / 4); n2 = rotate_vector t2 (TAU / 4)
          in (case line_intersection (a1, a1 + n1) (a2, a2 + n2) of
                Inr c \<Rightarrow> Inr (c, m)
              | Inl _ \<Rightarrow> Inr (ORIGIN, m\<lparr>failed_to_get_center := True\<rparr>))
      | _ \<Rightarrow> Inl ValueError)"

definition ArcBetweenPoints_post_init :: "mobject \<Rightarrow> error + mobject" where
  "ArcBetweenPoints_post_init m =
     bind_r
       (case radius m of
          RNone \<Rightarrow> Inr m
        | RInf \<Rightarrow> Inl NonFiniteGeometry
        | RFin r0 \<Rightarrow>
            let sign = (if r0 < 0 then - 2 else 2);
                r = (if r0 < 0 then r0 * - 1 else r0);
                halfdist = get_norm (start_attr m - end_attr m) / 2
            in if r < halfdist then Inl ValueError
               else let arc_height = r - sqrt (r\<^sup>2 - halfdist\<^sup>2)
                    in if r = 0 then Inl ZeroDivisionError
                       else Inr (m\<lparr>radius := RFin r,
                                   angle := arccos ((r - arc_height) / r) * sign\<rparr>))
       (\<lambda>m. bind_r (Arc_generate_points m)
       (\<lambda>m. let m = (if angle m = 0 then m\<lparr>points := set_points_as_corners [LEFT, RIGHT]\<rparr>
                      else m)
            in bind_r (Mobject_put_start_and_end_on (start_attr m) (end_attr m) m)
       (\<lambda>m. if radius m = RNone
            then bind_r (get_arc_center m) (\<lambda>(center, m).
                   if \<not> failed_to_get_center m
                   then Inr (m\<lparr>radius := RFin (get_norm (start_attr m - center))\<rparr>)
                   else Inr (m\<lparr>radius := RInf\<rparr>))
            else Inr m)))"

definition ArcBetweenPoints :: "point \<Rightarrow> point \<Rightarrow> real \<Rightarrow> real option \<Rightarrow> error + mobject" where
  "ArcBetweenPoints start end' a r =
     ArcBetweenPoints_post_init
       ((new_mobject ArcBetweenPoints_cls)
          \<lparr>start_attr := start, end_attr := end', angle := a,
           radius := (case r of None \<Rightarrow> RNone | Some x \<Rightarrow> RFin x)\<rparr>)"

section \<open>Line\<close>

definition account_for_buff :: "mobject \<Rightarrow> error + mobject" where
  "account_for_buff m =
     (if buff m = 0 then Inr m
      else bind_r (if path_arc m = Some 0 then get_length m
                   else Inr (get_arc_length (points m))) (\<lambda>length'.
             if length' < 2 * buff m then Inr m
             else if length' = 0 then Inr m
             else let buff_proportion = buff m / length'
                  in Inr (m\<lparr>points := pointwise_become_partial (points m)
                                          buff_proportion (1 - buff_proportion)\<rparr>)))"

definition Line_generate_points :: "mobject \<Rightarrow> error + mobject" where
  "Line_generate_points m =
     bind_r
       (if path_arc m \<noteq> None \<and> path_arc m \<noteq> Some 0
        then bind_r (ArcBetweenPoints (start_attr m) (end_attr m) (the (path_arc m)) None)
               (\<lambda>arc. Inr (m\<lparr>points := points arc\<rparr>))
        else Inr (m\<lparr>points := set_points_as_corners [start_attr m, end_attr m]\<rparr>))
       account_for_buff"

definition Line :: "point \<Rightarrow> point \<Rightarrow> real \<Rightarrow> real option \<Rightarrow> error + mobject" where
  "Line start end' b pa =
     Line_generate_points
       ((new_mobject Line_cls)\<lparr>start_attr := start, end_attr := end', buff := b, path_arc := pa\<rparr>)"

definition Line_put_start_and_end_on :: "point \<Rightarrow> point \<Rightarrow> mobject \<Rightarrow> error + mobject" where
  "Line_put_start_and_end_on start end' m =
     bind_r (get_start_and_end m) (\<lambda>(curr_start, curr_end).
       bind_r (if curr_start = curr_end
               then Line_generate_points (m\<lparr>start_attr := start, end_attr := end'\<rparr>)
               else Inr m)
         (Mobject_put_start_and_end_on start end'))"

definition put_start_and_end_on :: "point \<Rightarrow> point \<Rightarrow> mobject \<Rightarrow> error + mobject" where
  "put_start_and_end_on start end' m =
     (case cls m of
        Line_cls \<Rightarrow> Line_put_start_and_end_on start end' m
      | Arrow_cls \<Rightarrow> Line_put_start_and_end_on start end' m
      | _ \<Rightarrow> Mobject_put_start_and_end_on start end' m)"

section \<open>ArrowTip\<close>

text \<open>
  Modelled from the spec: \<^verbatim>\<open>compass_directions\<close> (the vertices of a regular polygon) and
  \<^verbatim>\<open>set_width\<close>, \<^verbatim>\<open>set_height\<close> (rescale to a given extent, leaving a shape of extent zero
  as it is) are not part of the sources.
\<close>

definition compass_directions :: "nat \<Rightarrow> point \<Rightarrow> point list" where
  "compass_directions n start_vect =
     map (\<lambda>k. rotate_vector start_vect (real k * (TAU / real n))) [0..<n]"

definition rescale_to_fit :: "real \<Rightarrow> nat \<Rightarrow> bool \<Rightarrow> point list \<Rightarrow> point list" where
  "rescale_to_fit len axis stretch ps =
     (let old_length = length_over_dim ps axis
      in if old_length = 0 then ps
         else if stretch then map (stretch_about (len / old_length) axis (center_of ps)) ps
         else map (scale_about (len / old_length) (center_of ps)) ps)"

definition ArrowTip :: "real \<Rightarrow> arrow_tip" where
  "ArrowTip len =
     (let start_vect = rotate_vector RIGHT PI;
          vertices = compass_directions 3 start_vect;
          ps = set_points_as_corners (vertices @ [vertices ! 0]);
          ps = rescale_to_fit len 0 False ps;
          ps = rescale_to_fit len 1 True ps
      in \<lparr>tip_points = ps, tip_size = len\<rparr>)"

definition ArrowTip_get_base :: "arrow_tip \<Rightarrow> point" where
  "ArrowTip_get_base t = point_from_proportion (tip_points t) (1 / 2)"

definition ArrowTip_get_tip_point :: "arrow_tip \<Rightarrow> error + point" where
  "ArrowTip_get_tip_point t =
     (case tip_points t of [] \<Rightarrow> Inl IndexError | p # _ \<Rightarrow> Inr p)"

definition ArrowTip_get_vector :: "arrow_tip \<Rightarrow> error + point" where
  "ArrowTip_get_vector t =
     bind_r (ArrowTip_get_tip_point t) (\<lambda>p. Inr (p - ArrowTip_get_base t))"

definition ArrowTip_get_angle :: "arrow_tip \<Rightarrow> error + real" where
  "ArrowTip_get_angle t = bind_r (ArrowTip_get_vector t) (\<lambda>v. Inr (angle_of_vector v))"

definition ArrowTip_get_length :: "arrow_tip \<Rightarrow> error + real" where
  "ArrowTip_get_length t = bind_r (ArrowTip_get_vector t) (\<lambda>v. Inr (get_norm v))"

section \<open>TipableVMobject: adding and removing tips\<close>

definition get_default_tip_length :: "mobject \<Rightarrow> error + real" where
  "get_default_tip_length m =
     (case cls m of
        Arrow_cls \<Rightarrow>
          (let max_ratio = max_tip_length_to_length_ratio m
           in bind_r (get_length m) (\<lambda>l. Inr (min (tip_length m) (max_ratio * l))))
      | _ \<Rightarrow> Inr (tip_length m))"

definition get_unpositioned_tip :: "real option \<Rightarrow> mobject \<Rightarrow> error + arrow_tip" where
  "get_unpositioned_tip tip_length' m =
     bind_r (case tip_length' of None \<Rightarrow> get_default_tip_length m | Some l \<Rightarrow> Inr l)
       (\<lambda>l. Inr (ArrowTip l))"

definition position_tip :: "arrow_tip \<Rightarrow> bool \<Rightarrow> mobject \<Rightarrow> error + arrow_tip" where
  "position_tip t at_start m =
     bind_r (if at_start
             then bind_r (get_start m) (\<lambda>anchor.
                    bind_r (get_first_handle m) (\<lambda>handle. Inr (anchor, handle)))
             else bind_r (get_last_handle m) (\<lambda>handle.
                    bind_r (get_end m) (\<lambda>anchor. Inr (anchor, handle))))
       (\<lambda>(anchor, handle).
          bind_r (ArrowTip_get_angle t) (\<lambda>tip_angle.
            let t = map_tip (rotate_about (angle_of_vector (handle - anchor) - PI - tip_angle)
                               (center_of (tip_points t))) t
            in bind_r (ArrowTip_get_tip_point t) (\<lambda>tip_point.
                 Inr (map_tip (\<lambda>p. p + (anchor - tip_point)) t))))"

definition create_tip :: "real option \<Rightarrow> bool \<Rightarrow> mobject \<Rightarrow> error + arrow_tip" where
  "create_tip tip_length' at_start m =
     bind_r (get_unpositioned_tip tip_length' m) (\<lambda>t. position_tip t at_start m)"

definition reset_endpoints_based_on_tip :: "arrow_tip \<Rightarrow> bool \<Rightarrow> mobject \<Rightarrow> error + mobject" where
  "reset_endpoints_based_on_tip t at_start m =
     bind_r (get_length m) (\<lambda>l.
       if l = 0 then Inr m
       else if at_start
       then bind_r (get_end m) (\<lambda>e. put_start_and_end_on (ArrowTip_get_base t) e m)
       else bind_r (get_start m) (\<lambda>s. put_start_and_end_on s (ArrowTip_get_base t) m))"

definition asign_tip_attr :: "nat \<Rightarrow> bool \<Rightarrow> mobject \<Rightarrow> mobject" where
  "asign_tip_attr t at_start m =
     (if at_start then m\<lparr>start_tip := Some t\<rparr> else m\<lparr>tip := Some t\<rparr>)"

text \<open>
  The tip object made by \<^verbatim>\<open>create_tip\<close> gets the next free object id when it is stored.
\<close>

definition new_object :: "arrow_tip \<Rightarrow> mobject \<Rightarrow> nat \<times> mobject" where
  "new_object t m = (next_id m, m\<lparr>store := (store m)(next_id m \<mapsto> t), next_id := Suc (next_id m)\<rparr>)"

definition add_tip :: "real option \<Rightarrow> bool \<Rightarrow> mobject \<Rightarrow> error + mobject" where
  "add_tip tip_length' at_start m =
     bind_r (create_tip tip_length' at_start m) (\<lambda>t.
       bind_r (reset_endpoints_based_on_tip t at_start m) (\<lambda>m.
         let (i, m) = new_object t m;
             m = asign_tip_attr i at_start m
         in Inr (add m i)))"

definition pop_tips :: "mobject \<Rightarrow> error + nat list \<times> mobject" where
  "pop_tips m =
     bind_r (get_start_and_end m) (\<lambda>(start, end').
       let result = [];
           (result, m) = (if has_tip m
                          then (list_update_add result (the (tip m)), remove m (the (tip m)))
                          else (result, m));
           (result, m) = (if has_start_tip m
                          then (list_update_add result (the (start_tip m)),
                                remove m (the (start_tip m)))
                          else (result, m))
       in bind_r (put_start_and_end_on start end' m) (\<lambda>m. Inr (result, m)))"

section \<open>Arrow\<close>

definition set_stroke_width_from_length :: "mobject \<Rightarrow> error + mobject" where
  "set_stroke_width_from_length m =
     (let max_ratio = max_stroke_width_to_length_ratio m
      in bind_r (get_length m) (\<lambda>l.
           Inr (m\<lparr>stroke_width := min (initial_stroke_width m) (max_ratio * l)\<rparr>)))"

text \<open>
  The four statements after \<^verbatim>\<open>add_tip\<close> in \<^verbatim>\<open>Arrow.scale\<close>: the points of the new tip are
  written into the old tip object, the new tip is removed, and the old object is the tip again.
\<close>

definition restore_old_tip :: "nat list \<Rightarrow> nat \<Rightarrow> bool \<Rightarrow> mobject \<Rightarrow> error + mobject" where
  "restore_old_tip old_tips k at_start m =
     (if k < length old_tips
      then (let old = old_tips ! k;
                new = the (if at_start then start_tip m else tip m)
            in bind_r (deref m old) (\<lambda>old_obj.
                 bind_r (deref m new) (\<lambda>new_obj.
                   let m = m\<lparr>store := (store m)(old \<mapsto> old_obj\<lparr>tip_points := tip_points new_obj\<rparr>)\<rparr>;
                       m = remove m new;
                       m = asign_tip_attr old at_start m
                   in Inr (add m old))))
      else Inl IndexError)"

definition Arrow_scale :: "real \<Rightarrow> point option \<Rightarrow> mobject \<Rightarrow> error + mobject" where
  "Arrow_scale factor about_point m =
     bind_r (get_length m) (\<lambda>l.
       if l = 0 then Inr m
       else let has_tip' = has_tip m; has_start_tip' = has_start_tip m
            in bind_r (if has_tip' \<or> has_start_tip' then pop_tips m else Inr ([], m))
                 (\<lambda>(old_tips, m).
                    bind_r (set_stroke_width_from_length (Mobject_scale factor about_point m))
                 (\<lambda>m. bind_r (if has_tip'
                              then bind_r (add_tip None False m) (restore_old_tip old_tips 0 False)
                              else Inr m)
                 (\<lambda>m. if has_start_tip'
                      then bind_r (add_tip None True m) (restore_old_tip old_tips 1 True)
                      else Inr m))))"

definition Arrow :: "point \<Rightarrow> point \<Rightarrow> real \<Rightarrow> error + mobject" where
  "Arrow start end' b =
     bind_r (Line_generate_points
               ((new_mobject Arrow_cls)
                  \<lparr>start_attr := start, end_attr := end', buff := b, stroke_width := 6\<rparr>))
       (\<lambda>m. bind_r (add_tip None False (m\<lparr>initial_stroke_width := stroke_width m\<rparr>))
               set_stroke_width_from_length)"

text \<open>
  \<^verbatim>\<open>self.scale\<close> dispatches on the class: \<^verbatim>\<open>Arrow\<close> overrides it, the other classes inherit
  \<^verbatim>\<open>Mobject.scale\<close>. In \<^verbatim>\<open>set_length\<close> the divisor \<^verbatim>\<open>self.get_length()\<close> is a numpy float64,
  so a division by zero raises nothing: the quotient is inf or nan (\<open>None\<close> below), and
  \<^verbatim>\<open>Mobject.scale\<close> multiplies every coordinate offset by it.
\<close>

definition np_divide :: "real \<Rightarrow> real \<Rightarrow> real option" where
  "np_divide a b = (if b = 0 then None else Some (a / b))"

definition scale :: "real option \<Rightarrow> mobject \<Rightarrow> error + mobject" where
  "scale factor m =
     (case cls m of
        Arrow_cls \<Rightarrow>
          bind_r (get_length m) (\<lambda>l.
            if l = 0 then Inr m
            else (case factor of None \<Rightarrow> Inl NonFiniteGeometry
                  | Some k \<Rightarrow> Arrow_scale k None m))
      | _ \<Rightarrow> (case factor of None \<Rightarrow> Inl NonFiniteGeometry
              | Some k \<Rightarrow> Inr (Mobject_scale k None m)))"

definition set_length :: "real \<Rightarrow> mobject \<Rightarrow> error + mobject" where
  "set_length length' m =
     bind_r (get_length m) (\<lambda>l. scale (np_divide length' l) m)"

section \<open>Basic facts\<close>

lemma bind_r_Inl [simp]: "bind_r (Inl e) f = Inl e"
  by (simp add: bind_r_def)

lemma bind_r_Inr [simp]: "bind_r (Inr x) f = f x"
  by (simp add: bind_r_def)

lemma get_norm_cmod: "get_norm v = cmod v"
  by (simp add: get_norm_def cmod_def)

lemma set_points_as_corners_pair:
  "set_points_as_corners [a, b] = [a, interpolate a b (1 / 3), interpolate a b (2 / 3), b]"
  by (simp add: set_points_as_corners_def interpolate_def)

lemmas getters =
  get_length_def get_start_and_end_def get_start_def get_end_def has_tip_def has_start_tip_def
  VMobject_get_start_def VMobject_get_end_def

lemma Line_0_4:
  "Line (Complex 0 0) (Complex 4 0) 0 None =
     Inr ((new_mobject Line_cls)
            \<lparr>start_attr := Complex 0 0, end_attr := Complex 4 0, buff := 0, path_arc := None,
             points := [Complex 0 0, Complex (4 / 3) 0, Complex (8 / 3) 0, Complex 4 0]\<rparr>)"
  by (simp add: Line_def Line_generate_points_def account_for_buff_def new_mobject_def
      set_points_as_corners_pair interpolate_def complex_eq_iff)

lemma bezier4: "bezier [a, b, c, d] t =
   of_real ((1 - t)^3) * a + of_real (3 * (1 - t)^2 * t) * b + of_real (3 * (1 - t) * t^2) * c + of_real (t^3) * d"
  by (simp add: bezier_def lessThan_Suc eval_nat_numeral binomial_Suc_Suc algebra_simps) 

lemma bezier3: "bezier [a, b, c] t =
   of_real ((1 - t)^2) * a + of_real (2 * (1 - t) * t) * b + of_real (t^2) * c"
  by (simp add: bezier_def lessThan_Suc eval_nat_numeral algebra_simps) 

lemma bezier2: "bezier [a, b] t = of_real (1 - t) * a + of_real t * b"
  by (simp add: bezier_def lessThan_Suc eval_nat_numeral algebra_simps) 

lemma bezier1: "bezier [a] t = a"
  by (simp add: bezier_def lessThan_Suc eval_nat_numeral algebra_simps) 

lemma upt4: "[0..<4] = [0,1,2,3]" by (simp add: upt_rec)

lemma pbp4: "a \<noteq> 1 \<Longrightarrow> partial_bezier_points [p0, p1, p2, p3] a b =
   (let q0 = bezier [p0, p1, p2, p3] a; q1 = bezier [p1, p2, p3] a; q2 = bezier [p2, p3] a; q3 = p3; e = (b - a) / (1 - a)
    in [q0, bezier [q0, q1] e, bezier [q0, q1, q2] e, bezier [q0, q1, q2, q3] e])"
  by (simp add: partial_bezier_points_def upt4 Let_def bezier1)

lemma bezier_straight:
  "bezier [s, interpolate s e (1 / 3), interpolate s e (2 / 3), e] t = interpolate s e t"
  by (simp add: bezier4 interpolate_def complex_eq_iff power2_eq_square power3_eq_cube algebra_simps)

lemma linspace5: "linspace 0 1 5 = [0, 1/4, 1/2, 3/4, 1]"
  by (simp add: linspace_def upt_rec)

lemma pfp_straight:
  "0 \<le> t \<Longrightarrow> t \<le> 1 \<Longrightarrow> point_from_proportion (set_points_as_corners [s, e]) t = interpolate s e t"
  by (auto simp add: point_from_proportion_def set_points_as_corners_pair get_num_curves_def
      integer_interpolate_def get_nth_curve_points_def bezier_straight frac_eq
      simp del: One_nat_def)

lemma get_arc_length_straight:
  "get_arc_length (set_points_as_corners [s, e]) = cmod (e - s)"
proof -
  have n: "get_num_curves (set_points_as_corners [s, e]) = 1"
    by (simp add: get_num_curves_def set_points_as_corners_pair)
  have q: "get_norm (interpolate s e b - interpolate s e a) = \<bar>b - a\<bar> * cmod (e - s)" for a b
  proof -
    have "interpolate s e b - interpolate s e a = of_real (b - a) * (e - s)"
      by (simp add: interpolate_def algebra_simps)
    then have "cmod (interpolate s e b - interpolate s e a) = cmod (of_real (b - a)) * cmod (e - s)"
      by (simp only: norm_mult)
    then show ?thesis by (simp only: get_norm_cmod norm_of_real)
  qed
  show ?thesis
    by (simp add: get_arc_length_def n linspace5 pfp_straight polyline_length_def q)
qed

lemma interpolate_0: "interpolate s e 0 = s" and interpolate_1: "interpolate s e 1 = e"
  by (simp_all add: interpolate_def)

lemma interpolate_interpolate:
  "interpolate (interpolate s e a) (interpolate s e b) t = interpolate s e ((1 - t) * a + t * b)"
  by (simp add: interpolate_def algebra_simps)

lemma bezier4_on_line:
  "bezier [interpolate s e x0, interpolate s e x1, interpolate s e x2, interpolate s e x3] t =
   interpolate s e ((1 - t)^3 * x0 + 3 * (1 - t)^2 * t * x1 + 3 * (1 - t) * t^2 * x2 + t^3 * x3)"
  by (simp add: bezier4 interpolate_def complex_eq_iff power2_eq_square power3_eq_cube algebra_simps)

lemma bezier3_on_line:
  "bezier [interpolate s e x0, interpolate s e x1, interpolate s e x2] t =
   interpolate s e ((1 - t)^2 * x0 + 2 * (1 - t) * t * x1 + t^2 * x2)"
  by (simp add: bezier3 interpolate_def complex_eq_iff power2_eq_square algebra_simps)

lemma bezier2_on_line:
  "bezier [interpolate s e x0, interpolate s e x1] t = interpolate s e ((1 - t) * x0 + t * x1)"
  by (simp add: bezier2 interpolate_def complex_eq_iff algebra_simps)

lemma partial_straight:
  assumes "a \<noteq> 1"
  shows "partial_bezier_points [s, interpolate s e (1 / 3), interpolate s e (2 / 3), e] a b =
         set_points_as_corners [interpolate s e a, interpolate s e b]"
proof -
  define r where "r = (b - a) / (1 - a)"
  have b: "b = a + r * (1 - a)" using assms by (simp add: r_def)
  have r: "(a + r * (1 - a) - a) / (1 - a) = r" using assms by simp
  have "partial_bezier_points
          [interpolate s e 0, interpolate s e (1 / 3), interpolate s e (2 / 3), interpolate s e 1] a b =
        [interpolate s e a, interpolate s e ((1 - 1 / 3) * a + 1 / 3 * b),
         interpolate s e ((1 - 2 / 3) * a + 2 / 3 * b), interpolate s e b]"
    unfolding pbp4[OF assms] Let_def bezier4_on_line bezier3_on_line bezier2_on_line b r
    apply (simp only: list.inject simp_thms)
    apply (intro conjI arg_cong[where f = "interpolate s e"])
       apply (simp_all add: power2_eq_square power3_eq_cube field_simps)
    done
  then show ?thesis
    by (simp add: interpolate_0 interpolate_1 set_points_as_corners_pair interpolate_interpolate)
qed

lemma apf_fields [simp]:
  "points (apply_points_function f m) = map f (points m)"
  "submobjects (apply_points_function f m) = submobjects m"
  "tip (apply_points_function f m) = tip m"
  "start_tip (apply_points_function f m) = start_tip m"
  "cls (apply_points_function f m) = cls m"
  "radius (apply_points_function f m) = radius m"
  "failed_to_get_center (apply_points_function f m) = failed_to_get_center m"
  "next_id (apply_points_function f m) = next_id m"
  "tip_length (apply_points_function f m) = tip_length m"
  "buff (apply_points_function f m) = buff m"
  "path_arc (apply_points_function f m) = path_arc m"
  "start_attr (apply_points_function f m) = start_attr m"
  "end_attr (apply_points_function f m) = end_attr m"
  "angle (apply_points_function f m) = angle m"
  "stroke_width (apply_points_function f m) = stroke_width m"
  "initial_stroke_width (apply_points_function f m) = initial_stroke_width m"
  "max_tip_length_to_length_ratio (apply_points_function f m) = max_tip_length_to_length_ratio m"
  "max_stroke_width_to_length_ratio (apply_points_function f m) = max_stroke_width_to_length_ratio m"
  by (simp_all add: apply_points_function_def)

lemma apf_store:
  "store (apply_points_function f m) i =
     (if i \<in> set (submobjects m) then map_option (map_tip f) (store m i) else store m i)"
  by (simp add: apply_points_function_def)

lemma map_tip_comp: "map_tip f \<circ> map_tip g = map_tip (f \<circ> g)"
  by (rule ext) (simp add: map_tip_def)

lemma apf_comp:
  "apply_points_function f (apply_points_function g m) = apply_points_function (f \<circ> g) m"
  by (auto simp add: apply_points_function_def fun_eq_iff map_tip_comp option.map_comp
      intro!: mobject.equality split: option.splits)

lemma similarity_factor:
  assumes "c \<noteq> 0"
  shows "of_real (get_norm t / get_norm c) * cis (angle_of_vector t - angle_of_vector c) = t / c"
proof -
  have "t / c = rcis (cmod t) (Arg t) / rcis (cmod c) (Arg c)"
    by (simp only: rcis_cmod_Arg)
  also have "\<dots> = rcis (cmod t / cmod c) (Arg t - Arg c)"
    using assms by (simp add: rcis_divide)
  finally show ?thesis
    by (simp add: rcis_def get_norm_cmod angle_of_vector_def)
qed

lemma Mobject_put_start_and_end_on_eq:
  assumes "get_start_and_end m = Inr (cs, ce)" and "cs \<noteq> ce"
  shows "Mobject_put_start_and_end_on s e m =
           Inr (apply_points_function (\<lambda>p. s + (p - cs) * ((e - s) / (ce - cs))) m)"
proof -
  have c: "ce - cs \<noteq> 0" using assms(2) by simp
  have f: "(\<lambda>p. p + (s - cs)) \<circ> (rotate_about (angle_of_vector (e - s) - angle_of_vector (ce - cs)) cs
            \<circ> scale_about (get_norm (e - s) / get_norm (ce - cs)) cs)
          = (\<lambda>p. s + (p - cs) * ((e - s) / (ce - cs)))"
  proof
    fix p
    have "cis (angle_of_vector (e - s) - angle_of_vector (ce - cs))
            * (of_real (get_norm (e - s) / get_norm (ce - cs)) * (p - cs))
          = (p - cs) * ((e - s) / (ce - cs))"
      by (simp only: similarity_factor[OF c, of "e - s", symmetric] mult_ac)
    then show "((\<lambda>p. p + (s - cs)) \<circ> (rotate_about (angle_of_vector (e - s) - angle_of_vector (ce - cs)) cs
            \<circ> scale_about (get_norm (e - s) / get_norm (ce - cs)) cs)) p = s + (p - cs) * ((e - s) / (ce - cs))"
      by (simp add: rotate_about_def scale_about_def)
  qed
  have "Mobject_put_start_and_end_on s e m =
          Inr (apply_points_function ((\<lambda>p. p + (s - cs)) \<circ> (rotate_about (angle_of_vector (e - s) - angle_of_vector (ce - cs)) cs
            \<circ> scale_about (get_norm (e - s) / get_norm (ce - cs)) cs)) m)"
    using assms c
    by (simp add: Mobject_put_start_and_end_on_def Let_def shift_def rotate_def Mobject_scale_def
        apf_comp comp_assoc)
  then show ?thesis by (simp only: f)
qed

lemma integer_interpolate_unit:
  "0 < a \<Longrightarrow> a < 1 \<Longrightarrow> integer_interpolate 0 1 a = (0, a)"
  by (simp add: integer_interpolate_def frac_eq)

lemma pointwise_become_partial_straight:
  assumes "0 < a" "a < 1" "0 < b" "b < 1"
  shows "pointwise_become_partial (set_points_as_corners [s, e]) a b =
         set_points_as_corners [interpolate s e a, interpolate s e b]"
proof -
  have n: "get_num_curves (set_points_as_corners [s, e]) = 1"
    by (simp add: get_num_curves_def set_points_as_corners_pair)
  have c: "get_nth_curve_points (set_points_as_corners [s, e]) 0 =
           [s, interpolate s e (1 / 3), interpolate s e (2 / 3), e]"
    by (simp add: get_nth_curve_points_def set_points_as_corners_pair)
  have a1: "a \<noteq> 1" using assms by simp
  show ?thesis
    using assms
    by (simp add: pointwise_become_partial_def n integer_interpolate_unit c
        partial_straight[OF a1] del: One_nat_def)
qed

lemma tipless_getters:
  assumes "\<not> has_tip m" "\<not> has_start_tip m"
  shows "get_start m = VMobject_get_start (points m)"
    and "get_end m = VMobject_get_end (points m)"
  using assms by (simp_all add: get_start_def get_end_def)

lemma straight_length:
  assumes "points m = set_points_as_corners [s, e]" "\<not> has_tip m" "\<not> has_start_tip m"
  shows "get_length m = Inr (cmod (e - s))"
  using assms
  by (simp add: get_length_def get_start_and_end_def tipless_getters VMobject_get_start_def
      VMobject_get_end_def set_points_as_corners_pair get_norm_cmod norm_minus_commute)

lemma interpolate_same: "interpolate p p t = p"
  by (simp add: interpolate_def algebra_simps)

lemma Arrow_set_length_zero_length:
  assumes "cls m = Arrow_cls" and "get_length m = Inr 0"
  shows "set_length l m = Inr m"
  using assms by (simp add: set_length_def np_divide_def scale_def)

lemma set_pre_positioned_points_fields:
  assumes "set_pre_positioned_points m = Inr m'"
  shows "radius m' = radius m" "failed_to_get_center m' = failed_to_get_center m"
    "submobjects m' = submobjects m" "tip m' = tip m" "start_tip m' = start_tip m"
    "start_attr m' = start_attr m" "end_attr m' = end_attr m" "angle m' = angle m"
    "arc_center m' = arc_center m" "store m' = store m"
  using assms by (auto simp add: set_pre_positioned_points_def Let_def split: if_splits)

lemma shift_fields [simp]:
  "radius (shift v m) = radius m" "failed_to_get_center (shift v m) = failed_to_get_center m"
  "points (shift v m) = map (\<lambda>p. p + v) (points m)" "submobjects (shift v m) = submobjects m"
  "tip (shift v m) = tip m" "start_tip (shift v m) = start_tip m"
  "start_attr (shift v m) = start_attr m" "end_attr (shift v m) = end_attr m" "angle (shift v m) = angle m"
  by (simp_all add: shift_def)

lemma Mobject_scale_fields [simp]:
  "radius (Mobject_scale k a m) = radius m"
  "failed_to_get_center (Mobject_scale k a m) = failed_to_get_center m"
  "submobjects (Mobject_scale k a m) = submobjects m"
  "tip (Mobject_scale k a m) = tip m" "start_tip (Mobject_scale k a m) = start_tip m"
  "start_attr (Mobject_scale k a m) = start_attr m" "end_attr (Mobject_scale k a m) = end_attr m"
  "angle (Mobject_scale k a m) = angle m"
  by (simp_all add: Mobject_scale_def Let_def)

lemma rotate_fields [simp]:
  "radius (rotate k a m) = radius m"
  "failed_to_get_center (rotate k a m) = failed_to_get_center m"
  "submobjects (rotate k a m) = submobjects m"
  "tip (rotate k a m) = tip m" "start_tip (rotate k a m) = start_tip m"
  by (simp_all add: rotate_def Let_def)

lemma Arc_generate_points_radius:
  assumes "Arc_generate_points m = Inr m'"
  shows "radius m' \<noteq> RNone" and "failed_to_get_center m' = failed_to_get_center m"
    and "radius m = RNone \<Longrightarrow> radius m' = RFin 1"
  using assms
  by (auto simp add: Arc_generate_points_def bind_r_def Let_def
      dest: set_pre_positioned_points_fields split: sum.splits radius.splits if_splits)

lemma Mobject_put_start_and_end_on_fields:
  assumes "Mobject_put_start_and_end_on s e m = Inr m'"
  shows "radius m' = radius m" and "failed_to_get_center m' = failed_to_get_center m"
  using assms
  by (auto simp add: Mobject_put_start_and_end_on_def bind_r_def Let_def
      split: sum.splits if_splits)

lemma ArcBetweenPoints_radius_not_inferred:
  assumes "ArcBetweenPoints s e a None = Inr m"
  shows "radius m = RFin 1 \<and> \<not> failed_to_get_center m"
proof -
  let ?m0 = "(new_mobject ArcBetweenPoints_cls)
          \<lparr>start_attr := s, end_attr := e, angle := a, radius := RNone\<rparr>"
  from assms obtain m2 m4 where
    g: "Arc_generate_points ?m0 = Inr m2" and
    p: "Mobject_put_start_and_end_on (start_attr m2) (end_attr m2)
          (if angle m2 = 0 then m2\<lparr>points := set_points_as_corners [LEFT, RIGHT]\<rparr> else m2) = Inr m4" and
    r: "(if radius m4 = RNone
            then bind_r (get_arc_center m4) (\<lambda>(center, m).
                   if \<not> failed_to_get_center m
                   then Inr (m\<lparr>radius := RFin (get_norm (start_attr m - center))\<rparr>)
                   else Inr (m\<lparr>radius := RInf\<rparr>))
            else Inr m4) = Inr m"
    by (auto simp add: ArcBetweenPoints_def ArcBetweenPoints_post_init_def bind_r_def Let_def
        split: sum.splits if_splits)
  have "radius m2 = RFin 1" "\<not> failed_to_get_center m2"
    using Arc_generate_points_radius[OF g] by (simp_all add: new_mobject_def)
  then have "radius m4 = RFin 1" "\<not> failed_to_get_center m4"
    using Mobject_put_start_and_end_on_fields[OF p] by (auto split: if_splits)
  then show ?thesis using r by simp
qed


lemma apf_no_children:
  "submobjects m = [] \<Longrightarrow> apply_points_function f m = m\<lparr>points := map f (points m)\<rparr>"
  by (simp add: apply_points_function_def)

lemma ArcBetweenPoints_straight:
  "ArcBetweenPoints LEFT RIGHT 0 None =
     Inr ((new_mobject ArcBetweenPoints_cls)
            \<lparr>start_attr := LEFT, end_attr := RIGHT, angle := 0, radius := RFin 1,
             points := [- 1, - 1 / 3, 1 / 3, 1]\<rparr>)"
proof -
  let ?m0 = "(new_mobject ArcBetweenPoints_cls)
          \<lparr>start_attr := LEFT, end_attr := RIGHT, angle := 0, radius := RNone\<rparr>"
  let ?m3 = "(new_mobject ArcBetweenPoints_cls)
            \<lparr>start_attr := LEFT, end_attr := RIGHT, angle := 0, radius := RFin 1,
             points := [- 1, - 1 / 3, 1 / 3, 1]\<rparr>"
  obtain ps where g: "Arc_generate_points ?m0 = Inr (?m0\<lparr>radius := RFin 1, points := ps\<rparr>)"
    by (simp add: Arc_generate_points_def set_pre_positioned_points_def new_mobject_def Let_def
        shift_def Mobject_scale_def apf_no_children)
  have c: "set_points_as_corners [- 1, 1 :: complex] = [- 1, - 1 / 3, 1 / 3, 1]"
    by (simp add: set_points_as_corners_pair interpolate_def)
  have se: "get_start_and_end ?m3 = Inr (- 1, 1)"
    by (simp add: getters new_mobject_def)
  have p: "Mobject_put_start_and_end_on (- 1) 1 ?m3 = Inr ?m3"
    using Mobject_put_start_and_end_on_eq[OF se, of "- 1" 1]
    by (simp add: apf_no_children new_mobject_def)
  from g p show ?thesis
    by (simp add: ArcBetweenPoints_def ArcBetweenPoints_post_init_def c new_mobject_def
        LEFT_def RIGHT_def)
qed

lemma get_arc_center_parallel:
  assumes "points m = a1 # h1 # h2 # a2 # rest"
    and "cross2 (rotate_vector (h1 - a1) (TAU / 4)) (rotate_vector (h2 - a2) (TAU / 4)) = 0"
  shows "get_arc_center m = Inr (ORIGIN, m\<lparr>failed_to_get_center := True\<rparr>)"
  using assms by (simp add: get_arc_center_def Let_def line_intersection_def)

lemma sah_props:
  assumes "length hs1 = length as1" "length hs2 = length as1" "length as2 = length as1" "as1 \<noteq> []"
  shows "set_anchors_and_handles as1 hs1 hs2 as2 \<noteq> []"
    and "hd (set_anchors_and_handles as1 hs1 hs2 as2) = hd as1"
    and "last (set_anchors_and_handles as1 hs1 hs2 as2) = last as2"
    and "length (set_anchors_and_handles as1 hs1 hs2 as2) = 4 * length as1"
  using assms
proof (induction as1 hs1 hs2 as2 rule: set_anchors_and_handles.induct)
  case (1 a1 as1 h1 hs1 h2 hs2 a2 as2)
  { case 1 show ?case by simp }
  { case 2 show ?case by simp }
  { case 3 
    show ?case
    proof (cases "as1 = []")
      case True
      with 3 show ?thesis by simp
    next
      case False
      with 3 "1.IH"(1,3)[of] show ?thesis by (cases as2) auto
    qed }
  { case 4 
    show ?case
    proof (cases "as1 = []")
      case True
      with 4 show ?thesis by simp
    next
      case False
      with 4 "1.IH"(4) show ?thesis by simp
    qed }
qed simp_all


lemma hd_butlast_nonempty: "butlast xs \<noteq> [] \<Longrightarrow> hd (butlast xs) = hd xs"
  by (cases xs) auto

lemma linspace_props:
  assumes "2 \<le> n"
  shows "length (linspace a b n) = n" and "hd (linspace a b n) = a" and "last (linspace a b n) = b"
proof -
  have n: "n \<noteq> 1" "0 < n" "[0..<n] \<noteq> []" using assms by auto
  show "length (linspace a b n) = n" using n by (simp add: linspace_def)
  show "hd (linspace a b n) = a" using n by (simp add: linspace_def hd_map hd_upt)
  have "last (linspace a b n) = a + (b - a) * real (n - 1) / real (n - 1)"
    using n by (simp add: linspace_def last_map)
  also have "\<dots> = b" using assms by simp
  finally show "last (linspace a b n) = b" .
qed

lemma unit_circle_point: "of_real (cos a) * RIGHT + of_real (sin a) * UP = cis a"
  by (simp add: RIGHT_def UP_def complex_eq_iff)

lemma set_pre_positioned_points_ends:
  assumes "2 \<le> num_components m"
  obtains ps where "set_pre_positioned_points m = Inr (m\<lparr>points := ps\<rparr>)"
    and "ps \<noteq> []" and "hd ps = cis (start_angle m)"
    and "last ps = cis (start_angle m + angle m)"
    and "length ps = 4 * (num_components m - 1)"
proof -
  let ?n = "num_components m"
  let ?ls = "linspace (start_angle m) (start_angle m + angle m) ?n"
  let ?an = "map cis ?ls"
  let ?tv = "map (\<lambda>z. Complex (- Im z) (Re z)) ?an"
  let ?d = "angle m / (real ?n - 1)"
  let ?h1 = "map (\<lambda>(a, t). a + of_real (?d / 3) * t) (zip (butlast ?an) (butlast ?tv))"
  let ?h2 = "map (\<lambda>(a, t). a - of_real (?d / 3) * t) (zip (tl ?an) (tl ?tv))"
  let ?ps = "set_anchors_and_handles (butlast ?an) ?h1 ?h2 (tl ?an)"
  have len: "length ?an = ?n" using linspace_props(1)[OF assms] by simp
  have ne: "?ls \<noteq> []" using len assms by auto
  have l: "length ?h1 = length (butlast ?an)" "length ?h2 = length (butlast ?an)"
    "length (tl ?an) = length (butlast ?an)" "butlast ?an \<noteq> []"
    using len assms by (auto simp add: length_0_conv[symmetric] simp del: length_0_conv)
  have tlne: "tl ?an \<noteq> []" using len assms
    by (auto simp add: length_0_conv[symmetric] simp del: length_0_conv)
  have e: "set_pre_positioned_points m = Inr (m\<lparr>points := ?ps\<rparr>)"
    using assms by (simp add: set_pre_positioned_points_def Let_def unit_circle_point)
  have h: "hd ?ps = cis (start_angle m)"
    using sah_props(2)[OF l] l(4) ne linspace_props(2)[OF assms, of "start_angle m" "start_angle m + angle m"]
    by (simp add: hd_butlast_nonempty hd_map)
  have la: "last ?ps = cis (start_angle m + angle m)"
    using sah_props(3)[OF l] tlne ne linspace_props(3)[OF assms, of "start_angle m" "start_angle m + angle m"]
    by (simp add: last_tl last_map)
  have le: "length ?ps = 4 * (?n - 1)"
    using sah_props(4)[OF l] len by simp
  show ?thesis
    using that[OF e sah_props(1)[OF l] h la le] .
qed

lemma sin_less_self:
  assumes "0 < x"
  shows "sin x < (x::real)"
proof (cases "x \<le> 1")
  case False
  then have "1 < x" by simp
  moreover have "sin x \<le> 1" by simp
  ultimately show ?thesis by linarith
next
  case True
  have h: "0 < x / 2" "x / 2 < pi" using assms True pi_ge_two by auto
  have s: "0 < sin (x / 2)" using sin_gt_zero[OF h] .
  have s2: "sin (x / 2) \<le> x / 2" using sin_x_le_x[of "x / 2"] h by simp
  have "cos (x / 2) < cos 0"
    using cos_monotone_0_pi[of 0 "x / 2"] h by simp
  then have c: "cos (x / 2) < 1" by simp
  have "sin x = 2 * sin (x / 2) * cos (x / 2)"
    using sin_double[of "x / 2"] by simp
  also have "\<dots> < 2 * sin (x / 2) * 1"
    using s c by (intro mult_strict_left_mono) auto
  also have "\<dots> \<le> x" using s2 by simp
  finally show ?thesis .
qed

lemma abs_sin_less_abs:
  assumes "x \<noteq> 0"
  shows "\<bar>sin x\<bar> < \<bar>x::real\<bar>"
proof -
  have p: "\<bar>sin y\<bar> < y" if "0 < y" for y :: real
  proof -
    have "sin y < y" using sin_less_self[OF that] .
    moreover have "- y \<le> sin y" using sin_x_ge_neg_x[of y] that by simp
    moreover have "- y < sin y"
    proof (cases "y \<le> 1")
      case True
      then have "0 < sin y" using sin_gt_zero[of y] that pi_ge_two by auto
      with that show ?thesis by linarith
    next
      case False
      moreover have "- 1 \<le> sin y" by simp
      ultimately show ?thesis by linarith
    qed
    ultimately show ?thesis by linarith
  qed
  show ?thesis
  proof (cases "0 < x")
    case True
    then show ?thesis using p[of x] by simp
  next
    case False
    then have "0 < - x" using assms by simp
    from p[OF this] show ?thesis by simp
  qed
qed

lemma chord_of_unit_circle: "cmod (cis x - cis y) = 2 * \<bar>sin ((x - y) / 2)\<bar>"
proof -
  have "cis y * cis (x - y) = cis x"
    by (simp add: cis_mult)
  then have "cis x - cis y = cis y * (cis (x - y) - 1)"
    by (simp add: algebra_simps)
  then have "cmod (cis x - cis y) = cmod (cis (x - y) - 1)"
    by (simp add: norm_mult)
  also have "\<dots> = sqrt ((cos (x - y) - 1)\<^sup>2 + (sin (x - y))\<^sup>2)"
    by (simp add: cmod_def)
  also have "(cos (x - y) - 1)\<^sup>2 + (sin (x - y))\<^sup>2 = (2 * sin ((x - y) / 2))\<^sup>2"
  proof -
    have "2 * ((x - y) / 2) = x - y" by simp
    then have c: "cos (x - y) = 1 - 2 * (sin ((x - y) / 2))\<^sup>2"
      using cos_double_sin[of "(x - y) / 2"] by (simp only:)
    have "(cos (x - y) - 1)\<^sup>2 + (sin (x - y))\<^sup>2 = 2 - 2 * cos (x - y)"
      using sin_cos_squared_add[of "x - y"] by (simp add: power2_eq_square algebra_simps)
    also have "\<dots> = (2 * sin ((x - y) / 2))\<^sup>2"
      by (simp add: c power2_eq_square)
    finally show ?thesis .
  qed
  also have "sqrt ((2 * sin ((x - y) / 2))\<^sup>2) = 2 * \<bar>sin ((x - y) / 2)\<bar>"
    by (simp only: real_sqrt_abs abs_mult)
  finally show ?thesis .
qed

lemma Mobject_scale_points [simp]:
  "points (Mobject_scale k a m) =
     map (scale_about k (case a of None \<Rightarrow> get_center m | Some c \<Rightarrow> c)) (points m)"
  by (simp add: Mobject_scale_def Let_def)

lemma Arc_generate_points_ends:
  assumes "2 \<le> num_components m"
    and "r = (case radius m of RFin x \<Rightarrow> x | _ \<Rightarrow> 1)" and "radius m \<noteq> RInf"
  obtains m' where "Arc_generate_points m = Inr m'"
    and "points m' \<noteq> []"
    and "hd (points m') = arc_center m + of_real r * cis (start_angle m)"
    and "last (points m') = arc_center m + of_real r * cis (start_angle m + angle m)"
    and "radius m' = RFin r" and "tip m' = tip m" and "start_tip m' = start_tip m"
    and "submobjects m' = submobjects m" and "angle m' = angle m"
    and "start_attr m' = start_attr m" and "end_attr m' = end_attr m"
    and "failed_to_get_center m' = failed_to_get_center m" and "cls m' = cls m"
proof -
  obtain ps where p: "set_pre_positioned_points m = Inr (m\<lparr>points := ps\<rparr>)"
    "ps \<noteq> []" "hd ps = cis (start_angle m)" "last ps = cis (start_angle m + angle m)"
    using set_pre_positioned_points_ends[OF assms(1)] by metis
  let ?m1 = "m\<lparr>points := ps, radius := RFin r\<rparr>"
  let ?m' = "shift (arc_center m) (Mobject_scale r (Some ORIGIN) ?m1)"
  have u: "m\<lparr>points := ps\<rparr> = ?m1" if "radius m = RFin r"
  proof -
    have "m\<lparr>points := ps\<rparr> = m\<lparr>radius := radius m\<rparr>\<lparr>points := ps\<rparr>" by simp
    then show ?thesis by (simp add: that)
  qed
  have e: "Arc_generate_points m = Inr ?m'"
  proof (cases "radius m")
    case RNone
    then show ?thesis using assms(2) by (simp add: Arc_generate_points_def p(1))
  next
    case (RFin x)
    then have "radius m = RFin r" using assms(2) by simp
    then show ?thesis by (simp add: Arc_generate_points_def p(1) u[symmetric])
  next
    case RInf
    then show ?thesis using assms(3) by simp
  qed
  show ?thesis
  proof (rule that[OF e])
    show "points ?m' \<noteq> []" using p(2) by simp
    show "hd (points ?m') = arc_center m + of_real r * cis (start_angle m)"
      using p(2,3) by (simp add: hd_map scale_about_def ORIGIN_def)
    show "last (points ?m') = arc_center m + of_real r * cis (start_angle m + angle m)"
      using p(2,4) by (simp add: last_map scale_about_def ORIGIN_def)
  qed (simp_all add: Mobject_scale_def shift_def)
qed

lemma ends_getters:
  assumes "\<not> has_tip m" "\<not> has_start_tip m" "points m \<noteq> []"
  shows "get_start m = Inr (hd (points m))" and "get_end m = Inr (last (points m))"
    and "get_start_and_end m = Inr (hd (points m), last (points m))"
    and "get_length m = Inr (cmod (hd (points m) - last (points m)))"
  using assms
  by (auto simp add: get_length_def get_start_and_end_def tipless_getters VMobject_get_start_def
      VMobject_get_end_def get_norm_cmod split: list.splits)

lemma cis_neq_one:
  assumes "- pi \<le> t" "t \<le> pi" "t \<noteq> 0"
  shows "cis t \<noteq> 1"
proof
  assume "cis t = 1"
  then have "cmod (cis t - cis 0) = 0" by simp
  then have z: "sin (t / 2) = 0" using chord_of_unit_circle[of t 0] by simp
  show False
  proof (cases "0 < t")
    case True
    then have "0 < sin (t / 2)" using assms by (intro sin_gt_zero) auto
    with z show False by simp
  next
    case False
    then have "0 < sin (- t / 2)" using assms by (intro sin_gt_zero) auto
    with z show False by simp
  qed
qed

lemma hd_last_map:
  "ps \<noteq> [] \<Longrightarrow> hd (map f ps) = f (hd ps)" "ps \<noteq> [] \<Longrightarrow> last (map f ps) = f (last ps)"
  by (simp_all add: hd_map last_map)

lemma Mobject_put_start_and_end_on_tipless:
  assumes "\<not> has_tip m" "\<not> has_start_tip m" "points m \<noteq> []" "hd (points m) \<noteq> last (points m)"
  obtains m' where "Mobject_put_start_and_end_on s e m = Inr m'"
    and "points m' = map (\<lambda>p. s + (p - hd (points m)) * ((e - s) / (last (points m) - hd (points m)))) (points m)"
    and "hd (points m') = s" and "last (points m') = e"
    and "radius m' = radius m" and "tip m' = tip m" and "start_tip m' = start_tip m"
    and "submobjects m' = submobjects m" and "cls m' = cls m"
proof -
  let ?f = "\<lambda>p. s + (p - hd (points m)) * ((e - s) / (last (points m) - hd (points m)))"
  have e: "Mobject_put_start_and_end_on s e m = Inr (apply_points_function ?f m)"
    using Mobject_put_start_and_end_on_eq[OF ends_getters(3)[OF assms(1-3)] assms(4)] .
  have d: "last (points m) - hd (points m) \<noteq> 0" using assms(4) by simp
  show ?thesis
  proof (rule that[OF e])
    show "hd (points (apply_points_function ?f m)) = s"
      using assms(3) by (simp add: hd_map)
    show "last (points (apply_points_function ?f m)) = e"
      using assms(3) d by (simp add: last_map)
  qed simp_all
qed

lemma set_points_as_corners_LEFT_RIGHT:
  "set_points_as_corners [LEFT, RIGHT] = [- 1, - 1 / 3, 1 / 3, 1]"
  by (simp add: set_points_as_corners_pair interpolate_def LEFT_def RIGHT_def)

lemma has_tip_cong:
  assumes "tip m' = tip m" "start_tip m' = start_tip m" "submobjects m' = submobjects m"
  shows "has_tip m' = has_tip m" and "has_start_tip m' = has_start_tip m"
  using assms by (simp_all add: has_tip_def has_start_tip_def cong: option.case_cong)

lemma max_min_list_mono:
  assumes "mono g" and "xs \<noteq> []"
  shows "max_list (map g xs) = g (max_list xs)" and "min_list_r (map g xs) = g (min_list_r xs)"
  using assms(2)
proof (induction xs rule: max_list.induct)
  case (3 x y ys)
  { case 1 then show ?case using "3.IH"(1) by (simp add: max_of_mono[OF assms(1)]) }
  { case 2 then show ?case using "3.IH"(2) by (simp add: min_of_mono[OF assms(1)]) }
qed simp_all

lemma max_min_list_antimono:
  assumes "antimono g" and "xs \<noteq> []"
  shows "max_list (map g xs) = g (min_list_r xs)" and "min_list_r (map g xs) = g (max_list xs)"
  using assms(2)
proof (induction xs rule: max_list.induct)
  case (3 x y ys)
  { case 1 then show ?case using "3.IH"(1) by (simp add: max_of_antimono[OF assms(1)]) }
  { case 2 then show ?case using "3.IH"(2) by (simp add: min_of_antimono[OF assms(1)]) }
qed simp_all

lemma affine_extent:
  assumes "xs \<noteq> []"
  shows "max_list (map (\<lambda>x. c + f * (x - c)) xs) - min_list_r (map (\<lambda>x. c + f * (x - c)) xs)
           = \<bar>f\<bar> * (max_list xs - min_list_r xs)"
    and "min_list_r (map (\<lambda>x. c + f * (x - c)) xs) + max_list (map (\<lambda>x. c + f * (x - c)) xs)
           = 2 * c + f * (min_list_r xs + max_list xs - 2 * c)"
proof -
  let ?g = "\<lambda>x. c + f * (x - c)"
  have "max_list (map ?g xs) - min_list_r (map ?g xs) = \<bar>f\<bar> * (max_list xs - min_list_r xs)
      \<and> min_list_r (map ?g xs) + max_list (map ?g xs) = 2 * c + f * (min_list_r xs + max_list xs - 2 * c)"
  proof (cases "0 \<le> f")
    case True
    then have "mono ?g" by (auto intro!: monoI mult_left_mono)
    from max_min_list_mono[OF this assms] True show ?thesis by (simp add: algebra_simps)
  next
    case False
    then have "antimono ?g" by (auto intro!: antimonoI mult_left_mono_neg)
    from max_min_list_antimono[OF this assms] False show ?thesis by (simp add: algebra_simps)
  qed
  then show "max_list (map ?g xs) - min_list_r (map ?g xs) = \<bar>f\<bar> * (max_list xs - min_list_r xs)"
    and "min_list_r (map ?g xs) + max_list (map ?g xs) = 2 * c + f * (min_list_r xs + max_list xs - 2 * c)"
    by simp_all
qed

lemma scale_about_coord:
  "Re (scale_about f c p) = Re c + f * (Re p - Re c)"
  "Im (scale_about f c p) = Im c + f * (Im p - Im c)"
  by (simp_all add: scale_about_def)

lemma scale_about_extent:
  assumes "ps \<noteq> []"
  shows "length_over_dim (map (scale_about f c) ps) axis = \<bar>f\<bar> * length_over_dim ps axis"
    and "center_of (map (scale_about f c) ps) = scale_about f c (center_of ps)"
proof -
  have ne: "map Re ps \<noteq> []" "map Im ps \<noteq> []" using assms by simp_all
  have r: "map Re (map (scale_about f c) ps) = map (\<lambda>x. Re c + f * (x - Re c)) (map Re ps)"
    and i: "map Im (map (scale_about f c) ps) = map (\<lambda>x. Im c + f * (x - Im c)) (map Im ps)"
    by (simp_all add: scale_about_coord comp_def)
  have co: "map (coord axis) qs = (if axis = 0 then map Re qs else map Im qs)" for qs
    by (simp add: coord_def)
  show "length_over_dim (map (scale_about f c) ps) axis = \<bar>f\<bar> * length_over_dim ps axis"
    using affine_extent(1)[OF ne(1), of "Re c" f] affine_extent(1)[OF ne(2), of "Im c" f]
    by (simp add: length_over_dim_def co r i del: map_map)
  show "center_of (map (scale_about f c) ps) = scale_about f c (center_of ps)"
    using affine_extent(2)[OF ne(1), of "Re c" f] affine_extent(2)[OF ne(2), of "Im c" f]
    by (simp add: center_of_def r i complex_eq_iff scale_about_coord field_simps del: map_map)
qed

lemma set_points_as_corners_quad:
  "set_points_as_corners [a, b, c, d] =
     [a, interpolate a b (1 / 3), interpolate a b (2 / 3), b,
      b, interpolate b c (1 / 3), interpolate b c (2 / 3), c,
      c, interpolate c d (1 / 3), interpolate c d (2 / 3), d]"
  by (simp add: set_points_as_corners_def interpolate_def)

lemma map_corners4:
  assumes "\<And>a b t. F (interpolate a b t) = interpolate (F a) (F b) t"
  shows "map F (set_points_as_corners [a, b, c, d]) = set_points_as_corners [F a, F b, F c, F d]"
  by (simp add: set_points_as_corners_quad assms)

lemma scale_about_interpolate:
  "scale_about f c (interpolate a b t) = interpolate (scale_about f c a) (scale_about f c b) t"
  by (simp add: scale_about_def interpolate_def algebra_simps)

lemma stretch_about_interpolate:
  "stretch_about f axis c (interpolate a b t) =
     interpolate (stretch_about f axis c a) (stretch_about f axis c b) t"
  by (simp add: stretch_about_def interpolate_def complex_eq_iff algebra_simps)

lemma cis_240: "cis (2 * TAU / 3) = Complex (- 1 / 2) (- sqrt 3 / 2)"
proof -
  have c: "cos (pi / 3 + pi) = - 1 / 2" using cos_periodic_pi[of "pi / 3"] by (simp add: cos_60)
  have s: "sin (pi / 3 + pi) = - sqrt 3 / 2" using sin_periodic_pi[of "pi / 3"] by (simp add: sin_60)
  have "cis (2 * TAU / 3) = cis (pi / 3 + pi)"
    by (rule arg_cong[where f = cis]) (simp add: TAU_def)
  also have "\<dots> = Complex (- 1 / 2) (- sqrt 3 / 2)"
    by (rule complex_eqI) (simp_all only: cis.simps c s complex.sel)
  finally show ?thesis .
qed

lemma cis_120: "cis (TAU / 3) = Complex (- 1 / 2) (sqrt 3 / 2)"
  by (simp add: complex_eq_iff TAU_def cos_120 sin_120)

lemma triangle_vertices:
  "compass_directions 3 (rotate_vector RIGHT PI) =
     [Complex (- 1) 0, Complex (1 / 2) (- sqrt 3 / 2), Complex (1 / 2) (sqrt 3 / 2)]"
proof -
  have u: "[0..<3] = [0, 1, 2]" by (simp add: upt_rec)
  show ?thesis
    by (simp add: compass_directions_def rotate_vector_def RIGHT_def PI_def u cis_120 cis_240
        complex_eq_iff)
qed


lemma triangle_extent_gen:
  fixes s :: real
  assumes "0 < s"
  shows "length_over_dim (set_points_as_corners
      [Complex (- 1) 0, Complex (1 / 2) (- s / 2), Complex (1 / 2) (s / 2), Complex (- 1) 0]) 0 = 3 / 2"
  and "length_over_dim (set_points_as_corners
      [Complex (- 1) 0, Complex (1 / 2) (- s / 2), Complex (1 / 2) (s / 2), Complex (- 1) 0]) 1 = s"
  and "center_of (set_points_as_corners
      [Complex (- 1) 0, Complex (1 / 2) (- s / 2), Complex (1 / 2) (s / 2), Complex (- 1) 0])
    = Complex (- 1 / 4) 0"
  using assms
  by (simp_all add: set_points_as_corners_quad interpolate_def length_over_dim_def coord_def
      center_of_def max_def min_def)

lemmas triangle_extent = triangle_extent_gen[of "sqrt 3", simplified]

lemma ArrowTip_points:
  "tip_points (ArrowTip L) =
     set_points_as_corners
       [Complex (- 1 / 4 - L / 2) 0, Complex (- 1 / 4 + L / 2) (- \<bar>L\<bar> / 2),
        Complex (- 1 / 4 + L / 2) (\<bar>L\<bar> / 2), Complex (- 1 / 4 - L / 2) 0]"
proof -
  let ?v0 = "Complex (- 1) 0" and ?v1 = "Complex (1 / 2) (- sqrt 3 / 2)"
  let ?v2 = "Complex (1 / 2) (sqrt 3 / 2)"
  let ?T0 = "set_points_as_corners [?v0, ?v1, ?v2, ?v0]"
  let ?c = "Complex (- 1 / 4) 0"
  let ?f = "L / (3 / 2)"
  let ?S = "scale_about ?f ?c"
  let ?T1 = "map ?S ?T0"
  have s3: "0 < sqrt 3" by simp
  note ext = triangle_extent_gen[OF s3]
  have ne: "?T0 \<noteq> []" by (simp add: set_points_as_corners_quad)
  have T1: "rescale_to_fit L 0 False ?T0 = ?T1"
    by (simp only: rescale_to_fit_def Let_def ext) simp
  have l1: "length_over_dim ?T1 1 = \<bar>?f\<bar> * sqrt 3"
    by (simp only: scale_about_extent(1)[OF ne] ext)
  have c1: "center_of ?T1 = ?c"
    by (simp only: scale_about_extent(2)[OF ne] ext) (simp add: scale_about_def)
  have T1c: "?T1 = set_points_as_corners [?S ?v0, ?S ?v1, ?S ?v2, ?S ?v0]"
    by (rule map_corners4) (rule scale_about_interpolate)
  have tp: "tip_points (ArrowTip L) = rescale_to_fit L 1 True ?T1"
    by (simp only: ArrowTip_def Let_def triangle_vertices append.simps nth_Cons_0 T1
        arrow_tip.select_convs)
  let ?g = "L / (\<bar>?f\<bar> * sqrt 3)"
  let ?G = "stretch_about ?g 1 ?c"
  have r2: "rescale_to_fit L 1 True ?T1 = (if \<bar>?f\<bar> * sqrt 3 = 0 then ?T1 else map ?G ?T1)"
    by (simp only: rescale_to_fit_def Let_def l1 c1 if_True)
  show ?thesis
  proof (cases "L = 0")
    case True
    then have z: "\<bar>?f\<bar> * sqrt 3 = 0" by simp
    have "tip_points (ArrowTip L) = ?T1"
      by (simp only: tp r2 z simp_thms if_True)
    then have "tip_points (ArrowTip L) = set_points_as_corners [?S ?v0, ?S ?v1, ?S ?v2, ?S ?v0]"
      by (simp only: T1c)
    then show ?thesis
      using True by (simp add: scale_about_def complex_eq_iff)
  next
    case False
    have nz: "\<bar>?f\<bar> * sqrt 3 \<noteq> 0" using False by simp
    have "rescale_to_fit L 1 True ?T1 = map ?G ?T1"
      by (simp only: r2 nz simp_thms if_False)
    also have "\<dots> = set_points_as_corners [?G (?S ?v0), ?G (?S ?v1), ?G (?S ?v2), ?G (?S ?v0)]"
      unfolding T1c by (rule map_corners4) (rule stretch_about_interpolate)
    finally have e: "tip_points (ArrowTip L) =
        set_points_as_corners [?G (?S ?v0), ?G (?S ?v1), ?G (?S ?v2), ?G (?S ?v0)]"
      using tp by simp
    have q: "sqrt 3 * sqrt 3 = 3" by simp
    have g: "?g * (?f * (sqrt 3 / 2)) = \<bar>L\<bar> / 2"
    proof -
      have "?g * (?f * (sqrt 3 / 2)) = (L * L / \<bar>L\<bar>) * ((sqrt 3 * sqrt 3) / (2 * (sqrt 3 * sqrt 3)))"
        using False by (simp add: field_simps abs_mult)
      also have "L * L / \<bar>L\<bar> = \<bar>L\<bar>" using False by (simp add: abs_if)
      finally show ?thesis by (simp only: q)
    qed
    have a: "?G (?S ?v0) = Complex (- 1 / 4 - L / 2) 0"
      by (simp add: stretch_about_def scale_about_def complex_eq_iff)
    have b: "?G (?S ?v1) = Complex (- 1 / 4 + L / 2) (- \<bar>L\<bar> / 2)"
      using g by (simp add: stretch_about_def scale_about_def complex_eq_iff algebra_simps)
    have c: "?G (?S ?v2) = Complex (- 1 / 4 + L / 2) (\<bar>L\<bar> / 2)"
      using g by (simp add: stretch_about_def scale_about_def complex_eq_iff algebra_simps)
    show ?thesis unfolding e a b c ..
  qed
qed

lemma Arg_negative_real:
  assumes "0 < L"
  shows "Arg (Complex (- L) 0) = pi"
proof (rule cis_Arg_unique)
  have "cmod (Complex (- L) 0) = L" using assms by (simp add: cmod_def)
  then show "sgn (Complex (- L) 0) = cis pi"
    using assms by (simp add: sgn_eq complex_eq_iff)
qed simp_all

lemma tip_rotation:
  assumes "0 < L" and "h \<noteq> a"
  shows "cis (angle_of_vector (h - a) - PI - angle_of_vector (Complex (- L) 0)) = sgn (h - a)"
proof -
  have "cis (Arg (h - a) - pi - pi) = cis (Arg (h - a)) * cis (- pi) * cis (- pi)"
    by (simp add: cis_mult)
  also have "\<dots> = cis (Arg (h - a))" by (simp add: complex_eq_iff)
  also have "\<dots> = sgn (h - a)" using assms(2) by (simp add: cis_Arg)
  finally show ?thesis
    by (simp add: angle_of_vector_def PI_def Arg_negative_real[OF assms(1)])
qed

lemma corners4_props:
  assumes "tip_points t = set_points_as_corners [a, b, c, d]"
  shows "ArrowTip_get_tip_point t = Inr a"
    and "VMobject_get_start (tip_points t) = Inr a"
    and "ArrowTip_get_base t = interpolate b c (1 / 2)"
    and "tip_points t \<noteq> []"
proof -
  have n: "get_num_curves (set_points_as_corners [a, b, c, d]) = 3"
    by (simp add: get_num_curves_def set_points_as_corners_quad)
  have i: "integer_interpolate 0 3 (1 / 2) = (1, 1 / 2)"
  proof -
    have "\<lfloor>3 / 2 :: real\<rfloor> = 1" by linarith
    moreover have "frac (3 / 2 :: real) = 1 / 2" by (simp add: frac_def \<open>\<lfloor>3 / 2 :: real\<rfloor> = 1\<close>)
    ultimately show ?thesis by (simp add: integer_interpolate_def)
  qed
  show "ArrowTip_get_tip_point t = Inr a"
    by (simp add: ArrowTip_get_tip_point_def assms set_points_as_corners_quad)
  show "VMobject_get_start (tip_points t) = Inr a"
    by (simp add: VMobject_get_start_def assms set_points_as_corners_quad)
  show "ArrowTip_get_base t = interpolate b c (1 / 2)"
    by (simp add: ArrowTip_get_base_def point_from_proportion_def assms get_num_curves_def i
        get_nth_curve_points_def set_points_as_corners_quad bezier_straight)
  show "tip_points t \<noteq> []" by (simp add: assms set_points_as_corners_quad)
qed

lemma rotate_about_interpolate:
  "rotate_about t c (interpolate a b x) = interpolate (rotate_about t c a) (rotate_about t c b) x"
  by (simp add: rotate_about_def interpolate_def algebra_simps)

lemma shift_interpolate:
  "interpolate a b x + v = interpolate (a + v) (b + v) x"
  by (simp add: interpolate_def algebra_simps)

lemma position_tip_corners:
  assumes t: "tip_points t = set_points_as_corners [a, b, c, a]"
    and an: "(if at_start
             then bind_r (get_start m) (\<lambda>anchor.
                    bind_r (get_first_handle m) (\<lambda>handle. Inr (anchor, handle)))
             else bind_r (get_last_handle m) (\<lambda>handle.
                    bind_r (get_end m) (\<lambda>anchor. Inr (anchor, handle)))) = Inr (anchor, handle)"
    and w: "w = cis (angle_of_vector (handle - anchor) - PI
                      - angle_of_vector (a - interpolate b c (1 / 2)))"
  shows "position_tip t at_start m =
           Inr (t\<lparr>tip_points := set_points_as_corners
                  [anchor, anchor + w * (b - a), anchor + w * (c - a), anchor]\<rparr>)"
proof -
  let ?th = "angle_of_vector (handle - anchor) - PI - angle_of_vector (a - interpolate b c (1 / 2))"
  let ?R = "rotate_about ?th (center_of (tip_points t))"
  let ?t1 = "map_tip ?R t"
  have ang: "ArrowTip_get_angle t = Inr (angle_of_vector (a - interpolate b c (1 / 2)))"
    by (simp add: ArrowTip_get_angle_def ArrowTip_get_vector_def corners4_props[OF t])
  have p1: "tip_points ?t1 = set_points_as_corners [?R a, ?R b, ?R c, ?R a]"
    unfolding map_tip_def using map_corners4[of ?R a b c a, OF rotate_about_interpolate]
    by (simp add: t)
  have tp: "ArrowTip_get_tip_point ?t1 = Inr (?R a)"
    using corners4_props(1)[OF p1] .
  let ?S = "\<lambda>p. p + (anchor - ?R a)"
  have "tip_points (map_tip ?S ?t1) = map ?S (tip_points ?t1)"
    by (simp add: map_tip_def)
  also have "\<dots> = map ?S (set_points_as_corners [?R a, ?R b, ?R c, ?R a])"
    by (simp only: p1)
  also have "\<dots> = set_points_as_corners [?S (?R a), ?S (?R b), ?S (?R c), ?S (?R a)]"
    by (rule map_corners4) (rule shift_interpolate)
  also have "\<dots> = set_points_as_corners
                  [anchor, anchor + w * (b - a), anchor + w * (c - a), anchor]"
    by (simp add: rotate_about_def w algebra_simps)
  finally have p2: "tip_points (map_tip ?S ?t1) = set_points_as_corners
                  [anchor, anchor + w * (b - a), anchor + w * (c - a), anchor]" .
  have "position_tip t at_start m = Inr (map_tip ?S ?t1)"
    by (simp add: position_tip_def an ang tp Let_def)
  moreover have "map_tip ?S ?t1 = t\<lparr>tip_points := tip_points (map_tip ?S ?t1)\<rparr>"
    by (simp add: map_tip_def)
  then have "map_tip ?S ?t1 = t\<lparr>tip_points := set_points_as_corners
                  [anchor, anchor + w * (b - a), anchor + w * (c - a), anchor]\<rparr>"
    by (simp only: p2)
  ultimately show ?thesis by simp
qed

lemma create_tip_eq:
  assumes tlen: "(case tlen of None \<Rightarrow> get_default_tip_length m | Some l \<Rightarrow> Inr l) = Inr L"
    and an: "(if at_start
             then bind_r (get_start m) (\<lambda>anchor.
                    bind_r (get_first_handle m) (\<lambda>handle. Inr (anchor, handle)))
             else bind_r (get_last_handle m) (\<lambda>handle.
                    bind_r (get_end m) (\<lambda>anchor. Inr (anchor, handle)))) = Inr (anchor, handle)"
    and w: "w = cis (angle_of_vector (handle - anchor) - PI - angle_of_vector (Complex (- L) 0))"
  obtains t where "create_tip tlen at_start m = Inr t"
    and "tip_points t = set_points_as_corners
           [anchor, anchor + w * Complex L (- \<bar>L\<bar> / 2), anchor + w * Complex L (\<bar>L\<bar> / 2), anchor]"
    and "ArrowTip_get_tip_point t = Inr anchor"
    and "VMobject_get_start (tip_points t) = Inr anchor"
    and "ArrowTip_get_base t = anchor + w * of_real L"
    and "ArrowTip_get_length t = Inr \<bar>L\<bar>"
    and "tip_size t = L"
proof -
  let ?A = "Complex (- 1 / 4 - L / 2) 0" and ?B = "Complex (- 1 / 4 + L / 2) (- \<bar>L\<bar> / 2)"
  let ?C = "Complex (- 1 / 4 + L / 2) (\<bar>L\<bar> / 2)"
  let ?ps = "set_points_as_corners
           [anchor, anchor + w * Complex L (- \<bar>L\<bar> / 2), anchor + w * Complex L (\<bar>L\<bar> / 2), anchor]"
  let ?t = "(ArrowTip L)\<lparr>tip_points := ?ps\<rparr>"
  have d: "?A - interpolate ?B ?C (1 / 2) = Complex (- L) 0" "?B - ?A = Complex L (- \<bar>L\<bar> / 2)"
    "?C - ?A = Complex L (\<bar>L\<bar> / 2)"
    by (simp_all add: interpolate_def complex_eq_iff)
  have "position_tip (ArrowTip L) at_start m = Inr ?t"
    using position_tip_corners[OF ArrowTip_points an, of w] w by (simp only: d)
  then have c: "create_tip tlen at_start m = Inr ?t"
    using tlen by (simp add: create_tip_def get_unpositioned_tip_def)
  have p: "tip_points ?t = ?ps" by simp
  have b: "ArrowTip_get_base ?t = anchor + w * of_real L"
    by (simp only: corners4_props(3)[OF p]) (simp add: interpolate_def complex_eq_iff field_simps)
  have cw: "cmod w = 1" by (simp add: w)
  have l: "ArrowTip_get_length ?t = Inr \<bar>L\<bar>"
    by (simp only: ArrowTip_get_length_def ArrowTip_get_vector_def corners4_props(1)[OF p] b
        bind_r_Inr) (simp add: get_norm_cmod norm_mult cw)
  show ?thesis
    by (rule that[OF c p corners4_props(1)[OF p] corners4_props(2)[OF p] b l])
      (simp add: ArrowTip_def Let_def)
qed

lemma get_tip_raises_when_no_tip_assigned:
  assumes "tip m = None" and "start_tip m = None"
  shows "get_tip m = Inl TipNotFound"
  using assms by (simp add: get_tip_def get_tips_def)

lemma put_start_and_end_on_eq:
  assumes "get_start_and_end m = Inr (cs, ce)" and "cs \<noteq> ce"
  shows "put_start_and_end_on s e m =
           Inr (apply_points_function (\<lambda>p. s + (p - cs) * ((e - s) / (ce - cs))) m)"
  using assms Mobject_put_start_and_end_on_eq[OF assms]
  by (cases "cls m") (simp_all add: put_start_and_end_on_def Line_put_start_and_end_on_def)

lemma get_length_eq:
  assumes "get_start_and_end m = Inr (s, e)"
  shows "get_length m = Inr (cmod (s - e))"
  using assms by (simp add: get_length_def get_norm_cmod)

lemma get_start_and_end_parts:
  assumes "get_start_and_end m = Inr (s, e)"
  shows "get_start m = Inr s" and "get_end m = Inr e"
  using assms by (auto simp add: get_start_and_end_def bind_r_def split: sum.splits)

lemma handles:
  assumes "2 \<le> length (points m)"
  shows "get_first_handle m = Inr (points m ! 1)"
    and "get_last_handle m = Inr (points m ! (length (points m) - 2))"
  using assms by (simp_all add: get_first_handle_def get_last_handle_def)

lemma VMobject_get_map:
  assumes "ps \<noteq> []"
  shows "VMobject_get_start (map f ps) = Inr (f (hd ps))"
    and "VMobject_get_end (map f ps) = Inr (f (last ps))"
  using assms by (cases ps; simp add: VMobject_get_start_def VMobject_get_end_def last_map)+

lemma add_tip_end_eq:
  assumes tlen: "(case tlen of None \<Rightarrow> get_default_tip_length m | Some l \<Rightarrow> Inr l) = Inr L"
    and nst: "\<not> has_start_tip m" and fr: "start_tip m \<noteq> Some (next_id m)"
    and se: "get_start_and_end m = Inr (s, e)" and ne: "s \<noteq> e"
    and len: "2 \<le> length (points m)"
    and w: "w = cis (angle_of_vector (points m ! (length (points m) - 2) - e) - PI
                      - angle_of_vector (Complex (- L) 0))"
    and b: "b = e + w * of_real L"
    and T: "T = (\<lambda>p. s + (p - s) * ((b - s) / (e - s)))"
  obtains m' t where "add_tip tlen False m = Inr m'"
    and "points m' = map T (points m)"
    and "tip m' = Some (next_id m)" and "start_tip m' = start_tip m"
    and "has_tip m'" and "\<not> has_start_tip m'"
    and "submobjects m' = list_update_add (submobjects m) (next_id m)"
    and "store m' (next_id m) = Some t"
    and "ArrowTip_get_length t = Inr \<bar>L\<bar>" and "VMobject_get_start (tip_points t) = Inr e"
    and "ArrowTip_get_base t = b"
    and "next_id m' = Suc (next_id m)" and "cls m' = cls m"
    and "create_tip tlen False m = Inr t"
    and "\<And>j. j \<noteq> next_id m \<Longrightarrow> store m' j = store (apply_points_function T m) j"
    and "tip_length m' = tip_length m"
    and "max_tip_length_to_length_ratio m' = max_tip_length_to_length_ratio m"
    and "get_start_and_end m' = Inr (s, e)"
proof -
  let ?h = "points m ! (length (points m) - 2)"
  have an: "(if False
             then bind_r (get_start m) (\<lambda>anchor.
                    bind_r (get_first_handle m) (\<lambda>handle. Inr (anchor, handle)))
             else bind_r (get_last_handle m) (\<lambda>handle.
                    bind_r (get_end m) (\<lambda>anchor. Inr (anchor, handle)))) = Inr (e, ?h)"
    by (simp add: handles[OF len] get_start_and_end_parts[OF se])
  obtain t where t: "create_tip tlen False m = Inr t"
    "VMobject_get_start (tip_points t) = Inr e" "ArrowTip_get_base t = b"
    "ArrowTip_get_length t = Inr \<bar>L\<bar>"
    using create_tip_eq[OF tlen an w] b by metis
  let ?m1 = "apply_points_function T m"
  have l: "get_length m = Inr (cmod (s - e))" "cmod (s - e) \<noteq> 0"
    using get_length_eq[OF se] ne by simp_all
  have r: "reset_endpoints_based_on_tip t False m = Inr ?m1"
    using l put_start_and_end_on_eq[OF se ne, of s b]
    by (simp add: reset_endpoints_based_on_tip_def get_start_and_end_parts[OF se] t(3) T)
  let ?m' = "add (asign_tip_attr (next_id m) False
                (?m1\<lparr>store := (store ?m1)(next_id m \<mapsto> t), next_id := Suc (next_id m)\<rparr>)) (next_id m)"
  have a: "add_tip tlen False m = Inr ?m'"
    by (simp add: add_tip_def t(1) r new_object_def Let_def)
  have ps: "points m \<noteq> []" using len by auto
  have d: "e - s \<noteq> 0" using ne by simp
  have Ts: "T s = s" and Te: "T e = b"
    using d by (simp_all add: T)
  have g0: "get_start m = Inr s" "get_end m = Inr e"
    using get_start_and_end_parts[OF se] by simp_all
  have hd: "hd (points m) = s"
    using g0(1) ps nst
    by (cases "points m")
      (simp_all add: get_start_def get_end_def VMobject_get_start_def VMobject_get_end_def)
  have nh: "\<not> has_start_tip ?m'"
    using nst fr
    by (auto simp add: has_start_tip_def add_def asign_tip_attr_def list_update_add_def
        split: option.splits)
  have ht: "has_tip ?m'"
    by (simp add: has_tip_def add_def asign_tip_attr_def list_update_add_def)
  have gs: "get_start ?m' = Inr s"
    using hd Ts nh
    by (simp add: get_start_def add_def asign_tip_attr_def VMobject_get_map[OF ps])
  have ge: "get_end ?m' = Inr e"
    by (simp add: get_end_def has_tip_def add_def asign_tip_attr_def list_update_add_def
        deref_def t(2))
  have g: "get_start_and_end ?m' = Inr (s, e)"
    by (simp only: get_start_and_end_def gs ge bind_r_Inr)
  show ?thesis
  proof (rule that[OF a, of t])
    show "get_start_and_end ?m' = Inr (s, e)" by (rule g)
    show "has_tip ?m'" by (rule ht)
    show "\<not> has_start_tip ?m'" by (rule nh)
  qed (simp_all add: add_def asign_tip_attr_def t)
qed

lemma add_tip_start_eq:
  assumes tlen: "(case tlen of None \<Rightarrow> get_default_tip_length m | Some l \<Rightarrow> Inr l) = Inr L"
    and nst: "\<not> has_tip m" and fr: "tip m \<noteq> Some (next_id m)"
    and se: "get_start_and_end m = Inr (s, e)" and ne: "s \<noteq> e"
    and len: "2 \<le> length (points m)"
    and w: "w = cis (angle_of_vector (points m ! 1 - s) - PI
                      - angle_of_vector (Complex (- L) 0))"
    and b: "b = s + w * of_real L"
    and T: "T = (\<lambda>p. b + (p - s) * ((e - b) / (e - s)))"
  obtains m' t where "add_tip tlen True m = Inr m'"
    and "points m' = map T (points m)"
    and "start_tip m' = Some (next_id m)" and "tip m' = tip m"
    and "has_start_tip m'" and "\<not> has_tip m'"
    and "submobjects m' = list_update_add (submobjects m) (next_id m)"
    and "store m' (next_id m) = Some t"
    and "ArrowTip_get_length t = Inr \<bar>L\<bar>" and "VMobject_get_start (tip_points t) = Inr s"
    and "ArrowTip_get_base t = b"
    and "next_id m' = Suc (next_id m)" and "cls m' = cls m"
    and "create_tip tlen True m = Inr t"
    and "\<And>j. j \<noteq> next_id m \<Longrightarrow> store m' j = store (apply_points_function T m) j"
    and "tip_length m' = tip_length m"
    and "max_tip_length_to_length_ratio m' = max_tip_length_to_length_ratio m"
    and "get_start_and_end m' = Inr (s, e)"
proof -
  let ?h = "points m ! 1"
  have an: "(if True
             then bind_r (get_start m) (\<lambda>anchor.
                    bind_r (get_first_handle m) (\<lambda>handle. Inr (anchor, handle)))
             else bind_r (get_last_handle m) (\<lambda>handle.
                    bind_r (get_end m) (\<lambda>anchor. Inr (anchor, handle)))) = Inr (s, ?h)"
    by (simp add: handles[OF len] get_start_and_end_parts[OF se])
  obtain t where t: "create_tip tlen True m = Inr t"
    "VMobject_get_start (tip_points t) = Inr s" "ArrowTip_get_base t = b"
    "ArrowTip_get_length t = Inr \<bar>L\<bar>"
    using create_tip_eq[OF tlen an w] b by metis
  let ?m1 = "apply_points_function T m"
  have l: "get_length m = Inr (cmod (s - e))" "cmod (s - e) \<noteq> 0"
    using get_length_eq[OF se] ne by simp_all
  have r: "reset_endpoints_based_on_tip t True m = Inr ?m1"
    using l put_start_and_end_on_eq[OF se ne, of b e]
    by (simp add: reset_endpoints_based_on_tip_def get_start_and_end_parts[OF se] t(3) T)
  let ?m' = "add (asign_tip_attr (next_id m) True
                (?m1\<lparr>store := (store ?m1)(next_id m \<mapsto> t), next_id := Suc (next_id m)\<rparr>)) (next_id m)"
  have a: "add_tip tlen True m = Inr ?m'"
    by (simp add: add_tip_def t(1) r new_object_def Let_def)
  have ps: "points m \<noteq> []" using len by auto
  have d: "e - s \<noteq> 0" using ne by simp
  have Ts: "T s = b" and Te: "T e = e"
    using d by (simp_all add: T)
  have g0: "get_start m = Inr s" "get_end m = Inr e"
    using get_start_and_end_parts[OF se] by simp_all
  have la: "last (points m) = e"
    using g0(2) ps nst
    by (cases "points m")
      (simp_all add: get_start_def get_end_def VMobject_get_start_def VMobject_get_end_def)
  have nh: "\<not> has_tip ?m'"
    using nst fr
    by (auto simp add: has_tip_def add_def asign_tip_attr_def list_update_add_def
        split: option.splits)
  have ht: "has_start_tip ?m'"
    by (simp add: has_start_tip_def add_def asign_tip_attr_def list_update_add_def)
  have gs: "get_start ?m' = Inr s"
    by (simp add: get_start_def has_start_tip_def add_def asign_tip_attr_def list_update_add_def
        deref_def t(2))
  have ge: "get_end ?m' = Inr e"
    using la Te nh
    by (simp add: get_end_def add_def asign_tip_attr_def VMobject_get_map[OF ps])
  have g: "get_start_and_end ?m' = Inr (s, e)"
    by (simp only: get_start_and_end_def gs ge bind_r_Inr)
  show ?thesis
  proof (rule that[OF a, of t])
    show "get_start_and_end ?m' = Inr (s, e)" by (rule g)
    show "has_start_tip ?m'" by (rule ht)
    show "\<not> has_tip ?m'" by (rule nh)
  qed (simp_all add: add_def asign_tip_attr_def t)
qed

lemma remove1_list_update_add:
  "remove1 x (list_update_add xs x) = filter (\<lambda>e. e \<noteq> x) xs"
  by (simp add: list_update_add_def remove1_append)

lemma create_tip_length:
  assumes "create_tip tlen at_start m = Inr t"
  obtains L where "(case tlen of None \<Rightarrow> get_default_tip_length m | Some l \<Rightarrow> Inr l) = Inr L"
  using assms
  by (cases "case tlen of None \<Rightarrow> get_default_tip_length m | Some l \<Rightarrow> Inr l")
    (simp_all add: create_tip_def get_unpositioned_tip_def)

lemma round_trip_end:
  assumes nt: "\<not> has_tip m" and nst: "\<not> has_start_tip m"
    and ft: "tip m \<noteq> Some (next_id m)" and fst: "start_tip m \<noteq> Some (next_id m)"
    and se: "get_start_and_end m = Inr (s, e)" and ne: "s \<noteq> e"
    and len: "2 \<le> length (points m)"
    and ct: "create_tip tlen False m = Inr t"
    and base: "ArrowTip_get_base t \<noteq> s"
  obtains m1 m2 where "add_tip tlen False m = Inr m1"
    and "pop_tips m1 = Inr ([next_id m], m2)"
    and "points m2 = points m" and "get_start_and_end m2 = Inr (s, e)"
    and "\<not> has_tip m2" and "\<not> has_start_tip m2"
    and "tip m2 = Some (next_id m)" and "start_tip m2 = start_tip m"
proof -
  obtain L where L: "(case tlen of None \<Rightarrow> get_default_tip_length m | Some l \<Rightarrow> Inr l) = Inr L"
    using create_tip_length[OF ct] .
  define w where "w = cis (angle_of_vector (points m ! (length (points m) - 2) - e) - PI
                      - angle_of_vector (Complex (- L) 0))"
  define b where "b = e + w * of_real L"
  define T where "T = (\<lambda>p. s + (p - s) * ((b - s) / (e - s)))"
  obtain m1 t' where m1: "add_tip tlen False m = Inr m1" "points m1 = map T (points m)"
    "tip m1 = Some (next_id m)" "start_tip m1 = start_tip m"
    "submobjects m1 = list_update_add (submobjects m) (next_id m)"
    "ArrowTip_get_base t' = b" "create_tip tlen False m = Inr t'"
    "get_start_and_end m1 = Inr (s, e)" "has_tip m1" "\<not> has_start_tip m1" "cls m1 = cls m"
    using add_tip_end_eq[OF L nst fst se ne len w_def b_def T_def] by metis
  have bb: "b \<noteq> s" using base ct m1(6,7) by simp
  have ps: "points m \<noteq> []" using len by auto
  have ends: "hd (points m) = s" "last (points m) = e"
    using ends_getters(3)[OF nt nst ps] se by simp_all
  let ?mr = "remove m1 (next_id m)"
  have sub: "submobjects ?mr = filter (\<lambda>e. e \<noteq> next_id m) (submobjects m)"
    by (simp add: remove_def m1(5) remove1_list_update_add)
  have nr: "\<not> has_tip ?mr" "\<not> has_start_tip ?mr"
    using nt nst ft fst sub m1(3,4)
    by (auto simp add: has_tip_def has_start_tip_def remove_def split: option.splits)
  have pr: "points ?mr = map T (points m)" by (simp add: remove_def m1(2))
  have d: "e - s \<noteq> 0" using ne by simp
  have Ts: "T s = s" and Te: "T e = b"
    using d by (simp_all add: T_def)
  have gr: "get_start_and_end ?mr = Inr (s, b)"
    using ends_getters(3)[OF nr] ps by (simp add: pr hd_last_map ends Ts Te)
  define T' where "T' = (\<lambda>p. s + (p - s) * ((e - s) / (b - s)))"
  have put: "put_start_and_end_on s e ?mr = Inr (apply_points_function T' ?mr)"
    using put_start_and_end_on_eq[OF gr, of s e] bb by (simp add: T'_def)
  have d2: "b - s \<noteq> 0" using bb by simp
  have id: "T' (T p) = p" for p
    using d d2 by (simp add: T'_def T_def)
  let ?m2 = "apply_points_function T' ?mr"
  have pop: "pop_tips m1 = Inr ([next_id m], ?m2)"
    using m1(9,10) put
    by (simp add: pop_tips_def m1(8) Let_def m1(3) nr list_update_add_def)
  have p2: "points ?m2 = points m"
    by (simp add: pr id comp_def)
  have n2: "\<not> has_tip ?m2" "\<not> has_start_tip ?m2"
    using nr by (simp_all add: has_tip_cong[of "apply_points_function T' ?mr" ?mr])
  have g2: "get_start_and_end ?m2 = Inr (s, e)"
    using ends_getters(3)[OF n2] ps by (simp only: p2 ends) simp
  show ?thesis
    by (rule that[OF m1(1) pop p2 g2 n2]) (simp_all add: remove_def m1(3,4))
qed

lemma round_trip_start:
  assumes nt: "\<not> has_tip m" and nst: "\<not> has_start_tip m"
    and ft: "tip m \<noteq> Some (next_id m)" and fst: "start_tip m \<noteq> Some (next_id m)"
    and se: "get_start_and_end m = Inr (s, e)" and ne: "s \<noteq> e"
    and len: "2 \<le> length (points m)"
    and ct: "create_tip tlen True m = Inr t"
    and base: "ArrowTip_get_base t \<noteq> e"
  obtains m1 m2 where "add_tip tlen True m = Inr m1"
    and "pop_tips m1 = Inr ([next_id m], m2)"
    and "points m2 = points m" and "get_start_and_end m2 = Inr (s, e)"
    and "\<not> has_tip m2" and "\<not> has_start_tip m2"
    and "start_tip m2 = Some (next_id m)" and "tip m2 = tip m"
proof -
  obtain L where L: "(case tlen of None \<Rightarrow> get_default_tip_length m | Some l \<Rightarrow> Inr l) = Inr L"
    using create_tip_length[OF ct] .
  define w where "w = cis (angle_of_vector (points m ! 1 - s) - PI
                      - angle_of_vector (Complex (- L) 0))"
  define b where "b = s + w * of_real L"
  define T where "T = (\<lambda>p. b + (p - s) * ((e - b) / (e - s)))"
  obtain m1 t' where m1: "add_tip tlen True m = Inr m1" "points m1 = map T (points m)"
    "start_tip m1 = Some (next_id m)" "tip m1 = tip m"
    "submobjects m1 = list_update_add (submobjects m) (next_id m)"
    "ArrowTip_get_base t' = b" "create_tip tlen True m = Inr t'"
    "get_start_and_end m1 = Inr (s, e)" "has_start_tip m1" "\<not> has_tip m1" "cls m1 = cls m"
    using add_tip_start_eq[OF L nt ft se ne len w_def b_def T_def] by metis
  have bb: "b \<noteq> e" using base ct m1(6,7) by simp
  have ps: "points m \<noteq> []" using len by auto
  have ends: "hd (points m) = s" "last (points m) = e"
    using ends_getters(3)[OF nt nst ps] se by simp_all
  let ?mr = "remove m1 (next_id m)"
  have sub: "submobjects ?mr = filter (\<lambda>e. e \<noteq> next_id m) (submobjects m)"
    by (simp add: remove_def m1(5) remove1_list_update_add)
  have nr: "\<not> has_tip ?mr" "\<not> has_start_tip ?mr"
    using nt nst ft fst sub m1(3,4)
    by (auto simp add: has_tip_def has_start_tip_def remove_def split: option.splits)
  have pr: "points ?mr = map T (points m)" by (simp add: remove_def m1(2))
  have d: "e - s \<noteq> 0" using ne by simp
  have Ts: "T s = b" and Te: "T e = e"
    using d by (simp_all add: T_def)
  have gr: "get_start_and_end ?mr = Inr (b, e)"
    using ends_getters(3)[OF nr] ps by (simp add: pr hd_last_map ends Ts Te)
  define T' where "T' = (\<lambda>p. s + (p - b) * ((e - s) / (e - b)))"
  have put: "put_start_and_end_on s e ?mr = Inr (apply_points_function T' ?mr)"
    using put_start_and_end_on_eq[OF gr, of s e] bb by (simp add: T'_def)
  have d2: "e - b \<noteq> 0" using bb by simp
  have id: "T' (T p) = p" for p
    using d d2 by (simp add: T'_def T_def)
  let ?m2 = "apply_points_function T' ?mr"
  have pop: "pop_tips m1 = Inr ([next_id m], ?m2)"
    using m1(9,10) put
    by (simp add: pop_tips_def m1(8) Let_def m1(3) nr list_update_add_def)
  have p2: "points ?m2 = points m"
    by (simp add: pr id comp_def)
  have n2: "\<not> has_tip ?m2" "\<not> has_start_tip ?m2"
    using nr by (simp_all add: has_tip_cong[of "apply_points_function T' ?mr" ?mr])
  have g2: "get_start_and_end ?m2 = Inr (s, e)"
    using ends_getters(3)[OF n2] ps by (simp only: p2 ends) simp
  show ?thesis
    by (rule that[OF m1(1) pop p2 g2 n2]) (simp_all add: remove_def m1(3,4))
qed

lemma Line_0_4_state:
  obtains m where "Line (Complex 0 0) (Complex 4 0) 0 None = Inr m"
    and "cls m = Line_cls" and "tip m = None" and "start_tip m = None"
    and "submobjects m = []" and "next_id m = 0"
    and "points m = [Complex 0 0, Complex (4 / 3) 0, Complex (8 / 3) 0, Complex 4 0]"
    and "tip_length m = 35 / 100"
    and "get_start_and_end m = Inr (Complex 0 0, Complex 4 0)"
    and "\<not> has_tip m" and "\<not> has_start_tip m"
  by (rule that[OF Line_0_4])
    (simp_all add: new_mobject_def DEFAULT_ARROW_TIP_LENGTH_def getters)

lemma straight_tip_base:
  assumes L: "(case tlen of None \<Rightarrow> get_default_tip_length m | Some l \<Rightarrow> Inr l) = Inr L"
    and pos: "0 < L"
    and nt: "\<not> has_tip m"
    and ps: "points m = [p0, p1, p2, p3]" and ne: "p2 \<noteq> p3"
  obtains t where "create_tip tlen False m = Inr t"
    and "ArrowTip_get_base t = p3 + sgn (p2 - p3) * of_real L"
proof -
  have an: "(if False
             then bind_r (get_start m) (\<lambda>anchor.
                    bind_r (get_first_handle m) (\<lambda>handle. Inr (anchor, handle)))
             else bind_r (get_last_handle m) (\<lambda>handle.
                    bind_r (get_end m) (\<lambda>anchor. Inr (anchor, handle)))) = Inr (p3, p2)"
    using nt by (simp add: get_last_handle_def get_end_def VMobject_get_end_def ps)
  show ?thesis
    using create_tip_eq[OF L an refl] tip_rotation[OF pos ne] that by metis
qed

lemma nonzero_length_two_points:
  assumes "\<not> has_tip m" and "\<not> has_start_tip m"
    and "get_start_and_end m = Inr (s, e)" and "s \<noteq> e"
  shows "2 \<le> length (points m)"
proof -
  have g: "get_start m = VMobject_get_start (points m)" "get_end m = VMobject_get_end (points m)"
    by (rule tipless_getters[OF assms(1,2)])+
  show ?thesis
  proof (cases "points m")
    case Nil
    with assms(3) show ?thesis
      by (simp add: get_start_and_end_def g VMobject_get_start_def)
  next
    case (Cons a list)
    with assms(3,4) show ?thesis
      by (cases list)
        (auto simp add: get_start_and_end_def g VMobject_get_start_def VMobject_get_end_def)
  qed
qed

lemma account_for_buff_struct:
  assumes "account_for_buff m = Inr m'"
  shows "submobjects m' = submobjects m \<and> tip m' = tip m \<and> start_tip m' = start_tip m
         \<and> next_id m' = next_id m"
  using assms
  by (auto simp add: account_for_buff_def bind_r_def Let_def split: sum.splits if_splits)

lemma Line_generate_points_struct:
  assumes "Line_generate_points m = Inr m'"
  shows "submobjects m' = submobjects m \<and> tip m' = tip m \<and> start_tip m' = start_tip m
         \<and> next_id m' = next_id m"
proof -
  from assms obtain m1 where a: "account_for_buff m1 = Inr m'"
    and f: "submobjects m1 = submobjects m" "tip m1 = tip m" "start_tip m1 = start_tip m"
      "next_id m1 = next_id m"
    by (auto simp add: Line_generate_points_def bind_r_def split: sum.splits if_splits)
  from account_for_buff_struct[OF a] f show ?thesis by simp
qed

lemma Mobject_put_start_and_end_on_struct:
  assumes "Mobject_put_start_and_end_on s e m = Inr m'"
  shows "submobjects m' = submobjects m \<and> tip m' = tip m \<and> start_tip m' = start_tip m
         \<and> next_id m' = next_id m"
  using assms
  by (auto simp add: Mobject_put_start_and_end_on_def bind_r_def Let_def shift_def rotate_def
      Mobject_scale_def split: sum.splits if_splits)

lemma put_start_and_end_on_struct:
  assumes "put_start_and_end_on s e m = Inr m'"
  shows "submobjects m' = submobjects m \<and> tip m' = tip m \<and> start_tip m' = start_tip m
         \<and> next_id m' = next_id m"
proof (cases "cls m = Line_cls \<or> cls m = Arrow_cls")
  case True
  with assms have "Line_put_start_and_end_on s e m = Inr m'"
    by (auto simp add: put_start_and_end_on_def)
  then obtain m1 where p: "Mobject_put_start_and_end_on s e m1 = Inr m'"
    and d: "m1 = m \<or> Line_generate_points (m\<lparr>start_attr := s, end_attr := e\<rparr>) = Inr m1"
    by (auto simp add: Line_put_start_and_end_on_def bind_r_def split: sum.splits if_splits)
  from d have "submobjects m1 = submobjects m \<and> tip m1 = tip m \<and> start_tip m1 = start_tip m
         \<and> next_id m1 = next_id m"
    using Line_generate_points_struct[of "m\<lparr>start_attr := s, end_attr := e\<rparr>" m1] by auto
  with Mobject_put_start_and_end_on_struct[OF p] show ?thesis by simp
next
  case False
  with assms have "Mobject_put_start_and_end_on s e m = Inr m'"
    by (cases "cls m") (simp_all add: put_start_and_end_on_def)
  then show ?thesis by (rule Mobject_put_start_and_end_on_struct)
qed

lemma reset_endpoints_based_on_tip_struct:
  assumes "reset_endpoints_based_on_tip t at_start m = Inr m'"
  shows "submobjects m' = submobjects m \<and> tip m' = tip m \<and> start_tip m' = start_tip m
         \<and> next_id m' = next_id m"
proof -
  from assms have "m' = m \<or> (\<exists>s e. put_start_and_end_on s e m = Inr m')"
    by (auto simp add: reset_endpoints_based_on_tip_def bind_r_def split: sum.splits if_splits)
  then show ?thesis using put_start_and_end_on_struct by auto
qed

lemma add_tip_struct:
  assumes "add_tip tlen at_start m = Inr m'"
  shows "submobjects m' = list_update_add (submobjects m) (next_id m)"
    and "(if at_start then start_tip m' else tip m') = Some (next_id m)"
    and "(if at_start then tip m' else start_tip m') = (if at_start then tip m else start_tip m)"
    and "next_id m' = Suc (next_id m)"
    and "\<exists>t. store m' (next_id m) = Some t"
proof -
  from assms obtain t m1 where r: "reset_endpoints_based_on_tip t at_start m = Inr m1"
    and m': "m' = add (asign_tip_attr (next_id m1) at_start
                (m1\<lparr>store := (store m1)(next_id m1 \<mapsto> t), next_id := Suc (next_id m1)\<rparr>)) (next_id m1)"
    by (auto simp add: add_tip_def bind_r_def new_object_def Let_def split: sum.splits)
  note s = reset_endpoints_based_on_tip_struct[OF r]
  show "submobjects m' = list_update_add (submobjects m) (next_id m)"
    and "(if at_start then start_tip m' else tip m') = Some (next_id m)"
    and "(if at_start then tip m' else start_tip m') = (if at_start then tip m else start_tip m)"
    and "next_id m' = Suc (next_id m)"
    and "\<exists>t. store m' (next_id m) = Some t"
    using s by (simp_all add: m' add_def asign_tip_attr_def)
qed

lemma Line_0_4_two_tips:
  obtains m m1 m2 where "Line (Complex 0 0) (Complex 4 0) 0 None = Inr m"
    and "add_tip None False m = Inr m1" and "add_tip None False m1 = Inr m2"
    and "next_id m = 0" and "tip m1 = Some 0" and "submobjects m1 = [0]" and "next_id m1 = 1"
    and "has_tip m1" and "tip m2 = Some 1" and "submobjects m2 = [0, 1]"
proof -
  obtain m where m: "Line (Complex 0 0) (Complex 4 0) 0 None = Inr m"
    "cls m = Line_cls" "tip m = None" "start_tip m = None" "submobjects m = []" "next_id m = 0"
    "points m = [Complex 0 0, Complex (4 / 3) 0, Complex (8 / 3) 0, Complex 4 0]"
    "tip_length m = 35 / 100" "get_start_and_end m = Inr (Complex 0 0, Complex 4 0)"
    "\<not> has_tip m" "\<not> has_start_tip m"
    by (rule Line_0_4_state)
  have L: "(case None of None \<Rightarrow> get_default_tip_length m | Some l \<Rightarrow> Inr l) = Inr (35 / 100)"
    by (simp add: get_default_tip_length_def m(2,8))
  have ne: "Complex 0 0 \<noteq> Complex 4 0" by simp
  have fr: "start_tip m \<noteq> Some (next_id m)" by (simp add: m(4))
  have len: "2 \<le> length (points m)" by (simp add: m(7))
  define w where "w = cis (angle_of_vector (points m ! (length (points m) - 2) - Complex 4 0) - PI
                      - angle_of_vector (Complex (- (35 / 100)) 0))"
  define b where "b = Complex 4 0 + w * of_real (35 / 100)"
  define T where "T = (\<lambda>p. Complex 0 0 + (p - Complex 0 0) * ((b - Complex 0 0) / (Complex 4 0 - Complex 0 0)))"
  obtain m1 t1 where m1:
    "add_tip None False m = Inr m1"
    "points m1 = map T (points m)"
    "tip m1 = Some (next_id m)"
    "start_tip m1 = start_tip m"
    "has_tip m1"
    "\<not> has_start_tip m1"
    "submobjects m1 = list_update_add (submobjects m) (next_id m)"
    "store m1 (next_id m) = Some t1"
    "ArrowTip_get_length t1 = Inr \<bar>(35 / 100)\<bar>"
    "VMobject_get_start (tip_points t1) = Inr (Complex 4 0)"
    "ArrowTip_get_base t1 = b"
    "next_id m1 = Suc (next_id m)"
    "cls m1 = cls m"
    "create_tip None False m = Inr t1"
    "\<And>j. j \<noteq> next_id m \<Longrightarrow> store m1 j = store (apply_points_function T m) j"
    "tip_length m1 = tip_length m"
    "max_tip_length_to_length_ratio m1 = max_tip_length_to_length_ratio m"
    "get_start_and_end m1 = Inr (Complex 0 0, Complex 4 0)"
    by (rule add_tip_end_eq[OF L m(11) fr m(9) ne len w_def b_def T_def]) (rule that)
  have L1: "(case None of None \<Rightarrow> get_default_tip_length m1 | Some l \<Rightarrow> Inr l) = Inr (35 / 100)"
    by (simp add: get_default_tip_length_def m1(13,16) m(2,8))
  have fr1: "start_tip m1 \<noteq> Some (next_id m1)" by (simp add: m1(4) m(4))
  have len1: "2 \<le> length (points m1)" by (simp add: m1(2) m(7))
  define w1 where "w1 = cis (angle_of_vector (points m1 ! (length (points m1) - 2) - Complex 4 0) - PI
                      - angle_of_vector (Complex (- (35 / 100)) 0))"
  define b1 where "b1 = Complex 4 0 + w1 * of_real (35 / 100)"
  define T1 where "T1 = (\<lambda>p. Complex 0 0 + (p - Complex 0 0) * ((b1 - Complex 0 0) / (Complex 4 0 - Complex 0 0)))"
  obtain m2 t2 where m2:
    "add_tip None False m1 = Inr m2"
    "points m2 = map T1 (points m1)"
    "tip m2 = Some (next_id m1)"
    "start_tip m2 = start_tip m1"
    "has_tip m2"
    "\<not> has_start_tip m2"
    "submobjects m2 = list_update_add (submobjects m1) (next_id m1)"
    "store m2 (next_id m1) = Some t2"
    "ArrowTip_get_length t2 = Inr \<bar>(35 / 100)\<bar>"
    "VMobject_get_start (tip_points t2) = Inr (Complex 4 0)"
    "ArrowTip_get_base t2 = b1"
    "next_id m2 = Suc (next_id m1)"
    "cls m2 = cls m1"
    "create_tip None False m1 = Inr t2"
    "\<And>j. j \<noteq> next_id m1 \<Longrightarrow> store m2 j = store (apply_points_function T1 m1) j"
    "tip_length m2 = tip_length m1"
    "max_tip_length_to_length_ratio m2 = max_tip_length_to_length_ratio m1"
    "get_start_and_end m2 = Inr (Complex 0 0, Complex 4 0)"
    by (rule add_tip_end_eq[OF L1 m1(6) fr1 m1(18) ne len1 w1_def b1_def T1_def]) (rule that)
  show ?thesis
    by (rule that[OF m(1) m1(1) m2(1)])
      (simp_all add: m(5,6) m1(3,5,7,12) m2(3,7) list_update_add_def)
qed

lemma pop_tips_end_tip:
  assumes ti: "tip a = Some i" and su: "submobjects a = [i]" and st: "start_tip a = None"
    and so: "store a i = Some t0" and ts: "VMobject_get_start (tip_points t0) = Inr e"
    and ps: "points a \<noteq> []" and hd: "hd (points a) = s" and la: "last (points a) \<noteq> s"
    and T0: "T0 = (\<lambda>p. s + (p - s) * ((e - s) / (last (points a) - s)))"
  shows "get_start_and_end a = Inr (s, e)"
    and "pop_tips a = Inr ([i], (remove a i)\<lparr>points := map T0 (points a)\<rparr>)"
proof -
  have ht: "has_tip a" "\<not> has_start_tip a"
    by (simp_all add: has_tip_def has_start_tip_def ti su st)
  have gs: "get_start a = Inr s"
    using ps hd by (cases "points a") (simp_all add: get_start_def ht VMobject_get_start_def)
  have ge: "get_end a = Inr e"
    by (simp add: get_end_def ht ti deref_def so ts)
  show se: "get_start_and_end a = Inr (s, e)"
    by (simp only: get_start_and_end_def gs ge bind_r_Inr)
  let ?mr = "remove a i"
  have sub: "submobjects ?mr = []" by (simp add: remove_def su)
  have nr: "\<not> has_tip ?mr" "\<not> has_start_tip ?mr"
    by (simp_all add: has_tip_def has_start_tip_def remove_def su ti st)
  have pr: "points ?mr = points a" by (simp add: remove_def)
  have gr: "get_start_and_end ?mr = Inr (s, last (points a))"
    using ends_getters(3)[OF nr] ps hd by (simp add: pr)
  have put: "put_start_and_end_on s e ?mr = Inr (apply_points_function T0 ?mr)"
    using put_start_and_end_on_eq[OF gr la[symmetric], of s e] by (simp add: T0)
  have ap: "apply_points_function T0 ?mr = ?mr\<lparr>points := map T0 (points a)\<rparr>"
    by (simp add: apf_no_children[OF sub] pr)
  show "pop_tips a = Inr ([i], (remove a i)\<lparr>points := map T0 (points a)\<rparr>)"
    using ht nr put
    by (simp add: pop_tips_def se Let_def ti list_update_add_def ap)
qed

lemma ArrowTip_get_length_points:
  "tip_points t' = tip_points t \<Longrightarrow> ArrowTip_get_length t' = ArrowTip_get_length t"
  by (simp add: ArrowTip_get_length_def ArrowTip_get_vector_def ArrowTip_get_tip_point_def
      ArrowTip_get_base_def)

lemma Arrow_scale_eq:
  assumes cl: "cls a = Arrow_cls"
    and ti: "tip a = Some i" and su: "submobjects a = [i]" and st: "start_tip a = None"
    and fr: "i \<noteq> next_id a"
    and so: "store a i = Some t0" and ts: "VMobject_get_start (tip_points t0) = Inr e"
    and len: "2 \<le> length (points a)" and hd: "hd (points a) = s"
    and la: "last (points a) \<noteq> s" and ne: "s \<noteq> e" and k: "k \<noteq> 0"
  obtains a' t where "Arrow_scale k ap a = Inr a'"
    and "tip a' = Some i" and "submobjects a' = [i]" and "start_tip a' = None"
    and "store a' i = Some t"
    and "get_length a' = Inr (\<bar>k\<bar> * cmod (s - e))"
    and "ArrowTip_get_length t
         = Inr \<bar>min (tip_length a) (max_tip_length_to_length_ratio a * (\<bar>k\<bar> * cmod (s - e)))\<bar>"
    and "tip_length a' = tip_length a"
    and "max_tip_length_to_length_ratio a' = max_tip_length_to_length_ratio a"
    and "cls a' = Arrow_cls" and "next_id a' = Suc (next_id a)"
proof -
  have ps: "points a \<noteq> []" using len by auto
  define T0 where "T0 = (\<lambda>p. s + (p - s) * ((e - s) / (last (points a) - s)))"
  note pt = pop_tips_end_tip[OF ti su st so ts ps hd la T0_def]
  define m1 where "m1 = (remove a i)\<lparr>points := map T0 (points a)\<rparr>"
  have f1: "cls m1 = Arrow_cls" "tip m1 = Some i" "start_tip m1 = None" "submobjects m1 = []"
    "next_id m1 = next_id a" "store m1 = store a" "tip_length m1 = tip_length a"
    "max_tip_length_to_length_ratio m1 = max_tip_length_to_length_ratio a"
    "points m1 = map T0 (points a)"
    "initial_stroke_width m1 = initial_stroke_width a"
    "max_stroke_width_to_length_ratio m1 = max_stroke_width_to_length_ratio a"
    by (simp_all add: m1_def remove_def cl ti st su)
  have l0: "get_length a = Inr (cmod (s - e))" by (rule get_length_eq[OF pt(1)])
  have ht: "has_tip a" "\<not> has_start_tip a"
    by (simp_all add: has_tip_def has_start_tip_def ti su st)
  define c where "c = (case ap of None \<Rightarrow> get_center m1 | Some p \<Rightarrow> p)"
  define S where "S = scale_about k c"
  define m2 where "m2 = Mobject_scale k ap m1"
  have m2: "m2 = m1\<lparr>points := map S (points m1)\<rparr>"
    by (simp add: m2_def Mobject_scale_def c_def S_def apf_no_children[OF f1(4)])
  have f2: "cls m2 = Arrow_cls" "tip m2 = Some i" "start_tip m2 = None" "submobjects m2 = []"
    "next_id m2 = next_id a" "store m2 = store a" "tip_length m2 = tip_length a"
    "max_tip_length_to_length_ratio m2 = max_tip_length_to_length_ratio a"
    "points m2 = map S (map T0 (points a))"
    "initial_stroke_width m2 = initial_stroke_width a"
    "max_stroke_width_to_length_ratio m2 = max_stroke_width_to_length_ratio a"
    by (simp_all add: m2 f1)
  have d: "last (points a) - s \<noteq> 0" using la by simp
  have T0s: "T0 s = s" "T0 (last (points a)) = e" using d by (simp_all add: T0_def)
  have p2: "points m2 \<noteq> []" "hd (points m2) = S s" "last (points m2) = S e"
    using ps hd by (simp_all add: f2(9) hd_map last_map T0s)
  have n2: "\<not> has_tip m2" "\<not> has_start_tip m2"
    by (simp_all add: has_tip_def has_start_tip_def f2)
  have se2: "get_start_and_end m2 = Inr (S s, S e)"
    by (simp only: ends_getters(3)[OF n2 p2(1)] p2(2,3))
  have dS: "S s - S e = of_real k * (s - e)"
    by (simp add: S_def scale_about_def algebra_simps)
  have cS: "cmod (S s - S e) = \<bar>k\<bar> * cmod (s - e)"
    by (simp only: dS norm_mult norm_of_real real_norm_def)
  have neS: "S s \<noteq> S e"
  proof
    assume "S s = S e"
    then have "of_real k * (s - e) = 0" using dS by simp
    with k ne show False by simp
  qed
  have l2: "get_length m2 = Inr (\<bar>k\<bar> * cmod (s - e))"
    by (simp only: get_length_eq[OF se2] cS)
  define sw where "sw = min (initial_stroke_width a)
                          (max_stroke_width_to_length_ratio a * (\<bar>k\<bar> * cmod (s - e)))"
  define m3 where "m3 = m2\<lparr>stroke_width := sw\<rparr>"
  have ss: "set_stroke_width_from_length m2 = Inr m3"
    by (simp add: set_stroke_width_from_length_def l2 Let_def sw_def m3_def f2)
  have f3: "cls m3 = Arrow_cls" "tip m3 = Some i" "start_tip m3 = None" "submobjects m3 = []"
    "next_id m3 = next_id a" "store m3 = store a" "tip_length m3 = tip_length a"
    "max_tip_length_to_length_ratio m3 = max_tip_length_to_length_ratio a"
    "points m3 = points m2"
    by (simp_all add: m3_def f2)
  have n3: "\<not> has_tip m3" "\<not> has_start_tip m3"
    by (simp_all add: has_tip_def has_start_tip_def f3)
  have p3: "points m3 \<noteq> []" using p2(1) by (simp add: f3)
  have se3: "get_start_and_end m3 = Inr (S s, S e)"
    by (simp only: ends_getters(3)[OF n3 p3] f3(9) p2(2,3))
  have len3: "2 \<le> length (points m3)" using len by (simp add: f3 f2)
  define L where "L = min (tip_length a) (max_tip_length_to_length_ratio a * (\<bar>k\<bar> * cmod (s - e)))"
  have l3: "get_length m3 = Inr (\<bar>k\<bar> * cmod (s - e))"
    by (simp only: get_length_eq[OF se3] cS)
  have L3: "(case None of None \<Rightarrow> get_default_tip_length m3 | Some l \<Rightarrow> Inr l) = Inr L"
    by (simp add: get_default_tip_length_def f3 l3 L_def Let_def)
  have fr3: "start_tip m3 \<noteq> Some (next_id m3)" by (simp add: f3)
  define w where "w = cis (angle_of_vector (points m3 ! (length (points m3) - 2) - S e) - PI
                      - angle_of_vector (Complex (- L) 0))"
  define b where "b = S e + w * of_real L"
  define T where "T = (\<lambda>p. S s + (p - S s) * ((b - S s) / (S e - S s)))"
  obtain m4 t where m4:
    "add_tip None False m3 = Inr m4"
    "points m4 = map T (points m3)"
    "tip m4 = Some (next_id m3)"
    "start_tip m4 = start_tip m3"
    "has_tip m4"
    "\<not> has_start_tip m4"
    "submobjects m4 = list_update_add (submobjects m3) (next_id m3)"
    "store m4 (next_id m3) = Some t"
    "ArrowTip_get_length t = Inr \<bar>L\<bar>"
    "VMobject_get_start (tip_points t) = Inr (S e)"
    "ArrowTip_get_base t = (b)"
    "next_id m4 = Suc (next_id m3)"
    "cls m4 = cls m3"
    "create_tip None False m3 = Inr t"
    "\<And>j. j \<noteq> next_id m3 \<Longrightarrow> store m4 j = store (apply_points_function T m3) j"
    "tip_length m4 = tip_length m3"
    "max_tip_length_to_length_ratio m4 = max_tip_length_to_length_ratio m3"
    "get_start_and_end m4 = Inr (S s, S e)"
    by (rule add_tip_end_eq[OF L3 n3(2) fr3 se3 neS len3 w_def b_def T_def]) (rule that)
  have so4: "store m4 i = Some t0"
    using m4(15)[of i] fr by (simp add: f3 apf_store so)
  define t' where "t' = t0\<lparr>tip_points := tip_points t\<rparr>"
  define a' where "a' = add (asign_tip_attr i False
      (remove (m4\<lparr>store := (store m4)(i \<mapsto> t')\<rparr>) (next_id a))) i"
  have ro: "restore_old_tip [i] 0 False m4 = Inr a'"
    by (simp add: restore_old_tip_def Let_def m4(3) f3 deref_def so4 m4(8)[unfolded f3(5)]
        a'_def t'_def)
  have as: "Arrow_scale k ap a = Inr a'"
    using ne ht ss ro
    by (simp add: Arrow_scale_def l0 pt(2) m1_def[symmetric] m2_def[symmetric] m4(1) Let_def)
  have fa: "tip a' = Some i" "submobjects a' = [i]" "start_tip a' = None"
    "store a' i = Some t'" "points a' = points m4"
    by (simp_all add: a'_def add_def asign_tip_attr_def remove_def m4(4,7) f3 list_update_add_def)
  have ha: "has_tip a'" "\<not> has_start_tip a'"
    by (simp_all add: has_tip_def has_start_tip_def fa)
  have gs4: "get_start m4 = Inr (S s)" by (rule get_start_and_end_parts(1)[OF m4(18)])
  have gsa: "get_start a' = Inr (S s)"
    using gs4 m4(6) by (simp add: get_start_def ha fa)
  have gea: "get_end a' = Inr (S e)"
    by (simp add: get_end_def ha fa deref_def t'_def m4(10))
  have sea: "get_start_and_end a' = Inr (S s, S e)"
    by (simp only: get_start_and_end_def gsa gea bind_r_Inr)
  have la': "get_length a' = Inr (\<bar>k\<bar> * cmod (s - e))"
    by (simp only: get_length_eq[OF sea] cS)
  have tl: "ArrowTip_get_length t' = Inr \<bar>L\<bar>"
    using ArrowTip_get_length_points[of t' t] m4(9) by (simp add: t'_def)
  show ?thesis
    by (rule that[OF as fa(1,2,3,4) la' tl[unfolded L_def]])
      (simp_all add: a'_def add_def asign_tip_attr_def remove_def m4(12,13,16,17) f3)
qed

lemma Arrow_0_4_state:
  obtains a t0 where "Arrow (Complex 0 0) (Complex 4 0) 0 = Inr a"
    and "cls a = Arrow_cls" and "tip a = Some 0" and "submobjects a = [0]"
    and "start_tip a = None" and "next_id a = 1"
    and "store a 0 = Some t0" and "VMobject_get_start (tip_points t0) = Inr (Complex 4 0)"
    and "ArrowTip_get_length t0 = Inr (35 / 100)"
    and "length (points a) = 4" and "hd (points a) = Complex 0 0"
    and "last (points a) = Complex (365 / 100) 0"
    and "tip_length a = 35 / 100" and "max_tip_length_to_length_ratio a = 25 / 100"
    and "get_length a = Inr 4"
proof -
  define m0 where "m0 = (new_mobject Arrow_cls)
            \<lparr>start_attr := Complex 0 0, end_attr := Complex 4 0, buff := 0, stroke_width := 6,
             points := [Complex 0 0, Complex (4 / 3) 0, Complex (8 / 3) 0, Complex 4 0],
             initial_stroke_width := 6\<rparr>"
  have g: "Line_generate_points
             ((new_mobject Arrow_cls)
                \<lparr>start_attr := Complex 0 0, end_attr := Complex 4 0, buff := 0, stroke_width := 6\<rparr>)
           = Inr ((new_mobject Arrow_cls)
            \<lparr>start_attr := Complex 0 0, end_attr := Complex 4 0, buff := 0, stroke_width := 6,
             points := [Complex 0 0, Complex (4 / 3) 0, Complex (8 / 3) 0, Complex 4 0]\<rparr>)"
    by (simp add: Line_generate_points_def account_for_buff_def new_mobject_def
      set_points_as_corners_pair interpolate_def complex_eq_iff)
  have f0: "cls m0 = Arrow_cls" "tip m0 = None" "start_tip m0 = None" "submobjects m0 = []"
    "next_id m0 = 0" "tip_length m0 = 35 / 100" "max_tip_length_to_length_ratio m0 = 25 / 100"
    "points m0 = [Complex 0 0, Complex (4 / 3) 0, Complex (8 / 3) 0, Complex 4 0]"
    "initial_stroke_width m0 = 6" "max_stroke_width_to_length_ratio m0 = 5"
    by (simp_all add: m0_def new_mobject_def DEFAULT_ARROW_TIP_LENGTH_def)
  have n0: "\<not> has_tip m0" "\<not> has_start_tip m0"
    by (simp_all add: has_tip_def has_start_tip_def f0)
  have se0: "get_start_and_end m0 = Inr (Complex 0 0, Complex 4 0)"
    using ends_getters(3)[OF n0] by (simp add: f0)
  have l0: "get_length m0 = Inr 4"
    using get_length_eq[OF se0] by (simp add: cmod_def)
  have L: "(case None of None \<Rightarrow> get_default_tip_length m0 | Some l \<Rightarrow> Inr l) = Inr (35 / 100)"
    by (simp add: get_default_tip_length_def f0 l0 Let_def)
  have ne: "Complex 0 0 \<noteq> Complex 4 0" by simp
  have fr: "start_tip m0 \<noteq> Some (next_id m0)" by (simp add: f0)
  have len: "2 \<le> length (points m0)" by (simp add: f0)
  define w where "w = cis (angle_of_vector (points m0 ! (length (points m0) - 2) - Complex 4 0) - PI
                      - angle_of_vector (Complex (- (35 / 100)) 0))"
  define b where "b = Complex 4 0 + w * of_real (35 / 100)"
  define T where "T = (\<lambda>p. Complex 0 0 + (p - Complex 0 0) * ((b - Complex 0 0) / (Complex 4 0 - Complex 0 0)))"
  obtain m1 t0 where m1:
    "add_tip None False m0 = Inr m1"
    "points m1 = map T (points m0)"
    "tip m1 = Some (next_id m0)"
    "start_tip m1 = start_tip m0"
    "has_tip m1"
    "\<not> has_start_tip m1"
    "submobjects m1 = list_update_add (submobjects m0) (next_id m0)"
    "store m1 (next_id m0) = Some t0"
    "ArrowTip_get_length t0 = Inr \<bar>(35 / 100)\<bar>"
    "VMobject_get_start (tip_points t0) = Inr (Complex 4 0)"
    "ArrowTip_get_base t0 = (b)"
    "next_id m1 = Suc (next_id m0)"
    "cls m1 = cls m0"
    "create_tip None False m0 = Inr t0"
    "\<And>j. j \<noteq> next_id m0 \<Longrightarrow> store m1 j = store (apply_points_function T m0) j"
    "tip_length m1 = tip_length m0"
    "max_tip_length_to_length_ratio m1 = max_tip_length_to_length_ratio m0"
    "get_start_and_end m1 = Inr (Complex 0 0, Complex 4 0)"
    by (rule add_tip_end_eq[OF L n0(2) fr se0 ne len w_def b_def T_def]) (rule that)
  have "Complex (8 / 3) 0 - Complex 4 0 = of_real (- 4 / 3)"
    by (simp add: complex_eq_iff)
  then have sg: "sgn (Complex (8 / 3) 0 - Complex 4 0) = - 1"
    by (simp only: sgn_of_real) simp
  have w1: "w = - 1"
    using tip_rotation[of "35 / 100" "Complex (8 / 3) 0" "Complex 4 0"]
    by (simp add: w_def f0 sg)
  have b1: "b = Complex (365 / 100) 0"
    by (simp add: b_def w1 complex_eq_iff)
  have l1: "get_length m1 = Inr 4"
    using get_length_eq[OF m1(18)] by (simp add: cmod_def)
  define a where "a = m1\<lparr>stroke_width := min (initial_stroke_width m1)
                                            (max_stroke_width_to_length_ratio m1 * 4)\<rparr>"
  have ss: "set_stroke_width_from_length m1 = Inr a"
    by (simp add: set_stroke_width_from_length_def l1 Let_def a_def)
  have A: "Arrow (Complex 0 0) (Complex 4 0) 0 = Inr a"
    using g m1(1) ss by (simp add: Arrow_def m0_def new_mobject_def)
  have ha: "has_tip a = has_tip m1" "has_start_tip a = has_start_tip m1"
    by (rule has_tip_cong; simp add: a_def)+
  have gsa: "get_start a = get_start m1" "get_end a = get_end m1"
    unfolding get_start_def get_end_def ha by (simp_all add: a_def deref_def)
  have sea: "get_start_and_end a = Inr (Complex 0 0, Complex 4 0)"
    using m1(18) by (simp only: get_start_and_end_def gsa)
  have la: "get_length a = Inr 4"
    using get_length_eq[OF sea] by (simp add: cmod_def)
  have T4: "T (Complex 4 0) = Complex (365 / 100) 0" "T (Complex 0 0) = Complex 0 0"
    by (simp_all add: T_def b1 complex_eq_iff)
  show ?thesis
    by (rule that[OF A _ _ _ _ _ _ m1(10) _ _ _ _ _ _ la])
      (simp_all add: a_def m1(2,3,4,7,12,13,16,17) m1(8)[unfolded f0(5)] m1(9)[simplified] f0
        list_update_add_def T4)
qed

















section \<open>Properties over the reals\<close>

text \<open>
  With an explicit radius \<open>r\<close>, \<^verbatim>\<open>ArcBetweenPoints(p1, p2, radius=r)\<close> raises \<^verbatim>\<open>ValueError\<close> when
  \<open>|r|\<close> is smaller than half the distance of the points. When \<open>|r|\<close> is at least half the distance
  and \<open>r \<noteq> 0\<close>, construction succeeds, and over the reals the first and the last anchor of the path
  are \<open>p1\<close> and \<open>p2\<close>; the float64 results of the program carry the rounding of the scale, the
  rotation and the shift, which this model of the numbers does not have.
\<close>

lemma ArcBetweenPoints_explicit_radius:
  "(\<bar>r\<bar> < dist p1 p2 / 2 \<longrightarrow> ArcBetweenPoints p1 p2 a (Some r) = Inl ValueError)
   \<and> (dist p1 p2 / 2 \<le> \<bar>r\<bar> \<and> r \<noteq> 0 \<longrightarrow>
        (\<exists>m. ArcBetweenPoints p1 p2 a (Some r) = Inr m
           \<and> VMobject_get_start (points m) = Inr p1 \<and> VMobject_get_end (points m) = Inr p2
           \<and> get_start_and_end m = Inr (p1, p2)))"
proof (intro conjI impI)
  let ?m0 = "(new_mobject ArcBetweenPoints_cls)
          \<lparr>start_attr := p1, end_attr := p2, angle := a, radius := RFin r\<rparr>"
  have hd: "get_norm (p1 - p2) / 2 = dist p1 p2 / 2"
    by (simp add: get_norm_cmod dist_norm)
  have ar: "(if r < 0 then r * - 1 else r) = \<bar>r\<bar>" by simp
  {
    assume "\<bar>r\<bar> < dist p1 p2 / 2"
    then show "ArcBetweenPoints p1 p2 a (Some r) = Inl ValueError"
      by (simp add: ArcBetweenPoints_def ArcBetweenPoints_post_init_def Let_def hd ar
          del: abs_if)
  }
  assume h: "dist p1 p2 / 2 \<le> \<bar>r\<bar> \<and> r \<noteq> 0"
  define R where "R = \<bar>r\<bar>"
  define H where "H = dist p1 p2 / 2"
  define sg :: real where "sg = (if r < 0 then - 2 else 2)"
  define t where "t = arccos (sqrt (R\<^sup>2 - H\<^sup>2) / R) * sg"
  have R: "0 < R" "H \<le> R" "0 \<le> H" using h by (simp_all add: R_def H_def)
  have x: "0 \<le> sqrt (R\<^sup>2 - H\<^sup>2) / R" "sqrt (R\<^sup>2 - H\<^sup>2) / R \<le> 1"
  proof -
    have "H\<^sup>2 \<le> R\<^sup>2" using R by (simp add: power_mono)
    then show "0 \<le> sqrt (R\<^sup>2 - H\<^sup>2) / R" using R by simp
    have "sqrt (R\<^sup>2 - H\<^sup>2) \<le> sqrt (R\<^sup>2)" by (rule real_sqrt_le_mono) simp
    then show "sqrt (R\<^sup>2 - H\<^sup>2) / R \<le> 1" using R by simp
  qed
  have ac: "0 \<le> arccos (sqrt (R\<^sup>2 - H\<^sup>2) / R)" "arccos (sqrt (R\<^sup>2 - H\<^sup>2) / R) \<le> pi / 2"
    using x arccos_lbound[of "sqrt (R\<^sup>2 - H\<^sup>2) / R"] arccos_le_pi2[of "sqrt (R\<^sup>2 - H\<^sup>2) / R"]
    by auto
  have t: "- pi \<le> t" "t \<le> pi"
    using ac by (auto simp add: t_def sg_def)
  let ?m1 = "?m0\<lparr>radius := RFin R, angle := t\<rparr>"
  have n: "2 \<le> num_components ?m1" by (simp add: new_mobject_def)
  obtain m2 where m2: "Arc_generate_points ?m1 = Inr m2" "points m2 \<noteq> []"
    "hd (points m2) = arc_center ?m1 + of_real R * cis (start_angle ?m1)"
    "last (points m2) = arc_center ?m1 + of_real R * cis (start_angle ?m1 + angle ?m1)"
    "radius m2 = RFin R" "tip m2 = tip ?m1" "start_tip m2 = start_tip ?m1"
    "angle m2 = angle ?m1" "start_attr m2 = start_attr ?m1" "end_attr m2 = end_attr ?m1"
    using Arc_generate_points_ends[OF n, of R] by (auto simp del: One_nat_def)
  define m3 where "m3 = (if angle m2 = 0 then m2\<lparr>points := set_points_as_corners [LEFT, RIGHT]\<rparr> else m2)"
  have m3: "\<not> has_tip m3" "\<not> has_start_tip m3" "points m3 \<noteq> []" "radius m3 = RFin R"
    "start_attr m3 = p1" "end_attr m3 = p2"
    using m2 by (auto simp add: m3_def has_tip_def has_start_tip_def new_mobject_def
        set_points_as_corners_LEFT_RIGHT)
  have ne: "hd (points m3) \<noteq> last (points m3)"
  proof (cases "t = 0")
    case True
    then show ?thesis using m2(8) by (simp add: m3_def set_points_as_corners_LEFT_RIGHT)
  next
    case False
    have "cis t \<noteq> 1" using cis_neq_one[OF t False] .
    then have "of_real R * cis t \<noteq> (of_real R :: complex)" using R by simp
    then show ?thesis using False m2 by (simp add: m3_def new_mobject_def ORIGIN_def)
  qed
  obtain m4 where m4: "Mobject_put_start_and_end_on p1 p2 m3 = Inr m4"
    "hd (points m4) = p1" "last (points m4) = p2" "radius m4 = radius m3"
    "tip m4 = tip m3" "start_tip m4 = start_tip m3" "submobjects m4 = submobjects m3"
    "points m4 = map (\<lambda>p. p1 + (p - hd (points m3)) * ((p2 - p1) / (last (points m3) - hd (points m3)))) (points m3)"
    using Mobject_put_start_and_end_on_tipless[OF m3(1,2,3) ne, of p1 p2] by metis
  have p4: "points m4 \<noteq> []" using m4(8) m3(3) by simp
  have t4: "\<not> has_tip m4" "\<not> has_start_tip m4"
    using m3(1,2) has_tip_cong[OF m4(5,6,7)] by simp_all
  have e: "ArcBetweenPoints p1 p2 a (Some r) = Inr m4"
    using h R m2(1) m4(1) m4(4) m3(4,5,6)
    by (simp add: ArcBetweenPoints_def ArcBetweenPoints_post_init_def Let_def hd ar
        R_def[symmetric] H_def[symmetric] sg_def[symmetric] t_def[symmetric] m3_def[symmetric]
        del: abs_if)
  show "\<exists>m. ArcBetweenPoints p1 p2 a (Some r) = Inr m
           \<and> VMobject_get_start (points m) = Inr p1 \<and> VMobject_get_end (points m) = Inr p2
           \<and> get_start_and_end m = Inr (p1, p2)"
    using e p4 m4(2,3) ends_getters(3)[OF t4 p4]
    by (auto simp add: VMobject_get_start_def VMobject_get_end_def split: list.splits)
qed


lemma ArcBetweenPoints_explicit_radius_example:
  "ArcBetweenPoints (Complex (- 1) 0) (Complex 1 0) (TAU / 4) (Some (1 / 2)) = Inl ValueError
   \<and> (\<exists>m. ArcBetweenPoints (Complex (- 1) 0) (Complex 1 0) (TAU / 4) (Some 1) = Inr m
          \<and> VMobject_get_start (points m) = Inr (Complex (- 1) 0)
          \<and> VMobject_get_end (points m) = Inr (Complex 1 0)
          \<and> get_start_and_end m = Inr (Complex (- 1) 0, Complex 1 0))"
proof -
  have d: "dist (Complex (- 1) 0) (Complex 1 0) = 2"
    by (simp add: dist_norm cmod_def)
  show ?thesis
    using ArcBetweenPoints_explicit_radius[of "1 / 2" "Complex (- 1) 0" "Complex 1 0" "TAU / 4"]
      ArcBetweenPoints_explicit_radius[of 1 "Complex (- 1) 0" "Complex 1 0" "TAU / 4"]
    by (simp add: d)
qed

text \<open>
  Over the reals, on a curve without tips and of nonzero length, \<^verbatim>\<open>add_tip\<close> (at either end)
  followed by \<^verbatim>\<open>pop_tips\<close> gives back the points of the curve, hence its start and end, provided
  the base of the new tip does not fall on the opposite endpoint of the curve: the two similarity
  maps compose to the identity. When the base falls on the opposite endpoint the body collapses to
  a point; \<^verbatim>\<open>pop_tips\<close> then raises in \<^verbatim>\<open>Mobject.put_start_and_end_on\<close> for a curve of the Arc
  classes (third lemma), while \<^verbatim>\<open>Line.put_start_and_end_on\<close> generates the points of a line
  anew. The float64 results of the program carry the rounding of each scale, rotation and shift,
  which this model of the numbers does not have.
\<close>

lemma add_tip_pop_tips_round_trip:
  assumes "\<not> has_tip m" and "\<not> has_start_tip m"
    and "tip m \<noteq> Some (next_id m)" and "start_tip m \<noteq> Some (next_id m)"
    and "get_start_and_end m = Inr (s, e)" and "s \<noteq> e"
    and "create_tip tlen at_start m = Inr t"
    and "ArrowTip_get_base t \<noteq> (if at_start then e else s)"
  shows "\<exists>m1 m2. add_tip tlen at_start m = Inr m1
           \<and> pop_tips m1 = Inr ([next_id m], m2)
           \<and> points m2 = points m
           \<and> get_start_and_end m2 = Inr (s, e)
           \<and> \<not> has_tip m2 \<and> \<not> has_start_tip m2"
proof -
  have len: "2 \<le> length (points m)"
    by (rule nonzero_length_two_points[OF assms(1,2,5,6)])
  show ?thesis
  proof (cases at_start)
    case True
    with assms have c: "create_tip tlen True m = Inr t" and b: "ArrowTip_get_base t \<noteq> e"
      by simp_all
    show ?thesis
      using round_trip_start[OF assms(1-6) len c b] True by metis
  next
    case False
    with assms have c: "create_tip tlen False m = Inr t" and b: "ArrowTip_get_base t \<noteq> s"
      by simp_all
    show ?thesis
      using round_trip_end[OF assms(1-6) len c b] False by metis
  qed
qed

lemma add_tip_pop_tips_round_trip_example:
  "\<exists>m m1 m2. Line (Complex 0 0) (Complex 4 0) 0 None = Inr m
     \<and> get_length m = Inr 4
     \<and> add_tip None False m = Inr m1
     \<and> pop_tips m1 = Inr ([0], m2)
     \<and> points m2 = [Complex 0 0, Complex (4 / 3) 0, Complex (8 / 3) 0, Complex 4 0]
     \<and> get_start_and_end m2 = Inr (Complex 0 0, Complex 4 0)"
proof -
  obtain m where m: "Line (Complex 0 0) (Complex 4 0) 0 None = Inr m"
    "cls m = Line_cls" "tip m = None" "start_tip m = None" "submobjects m = []" "next_id m = 0"
    "points m = [Complex 0 0, Complex (4 / 3) 0, Complex (8 / 3) 0, Complex 4 0]"
    "tip_length m = 35 / 100" "get_start_and_end m = Inr (Complex 0 0, Complex 4 0)"
    "\<not> has_tip m" "\<not> has_start_tip m"
    by (rule Line_0_4_state)
  have L: "(case None of None \<Rightarrow> get_default_tip_length m | Some l \<Rightarrow> Inr l) = Inr (35 / 100)"
    by (simp add: get_default_tip_length_def m(2,8))
  obtain t where t: "create_tip None False m = Inr t"
    "ArrowTip_get_base t = Complex 4 0 + sgn (Complex (8 / 3) 0 - Complex 4 0) * of_real (35 / 100)"
    by (rule straight_tip_base[OF L _ m(10) m(7)]) simp_all
  have "Complex (8 / 3) 0 - Complex 4 0 = of_real (- 4 / 3)"
    by (simp add: complex_eq_iff)
  then have sg: "sgn (Complex (8 / 3) 0 - Complex 4 0) = - 1"
    by (simp only: sgn_of_real) simp
  have b: "ArrowTip_get_base t \<noteq> (if False then Complex 4 0 else Complex 0 0)"
    by (simp add: t(2) sg complex_eq_iff)
  have l: "get_length m = Inr 4"
    by (simp add: get_length_def m(9) get_norm_def)
  from add_tip_pop_tips_round_trip[OF m(10,11) _ _ m(9) _ t(1) b] m l
  show ?thesis by auto
qed

lemma add_tip_pop_tips_collapse:
  "bind_r (ArcBetweenPoints LEFT RIGHT 0 None) get_length = Inr 2
   \<and> bind_r (bind_r (ArcBetweenPoints LEFT RIGHT 0 None) (add_tip (Some 2) False))
         get_start_and_end = Inr (- 1, 1)
   \<and> bind_r (bind_r (ArcBetweenPoints LEFT RIGHT 0 None) (add_tip (Some 2) False))
         pop_tips = Inl ClosedLoop"
proof -
  let ?m = "(new_mobject ArcBetweenPoints_cls)
            \<lparr>start_attr := LEFT, end_attr := RIGHT, angle := 0, radius := RFin 1,
             points := [- 1, - 1 / 3, 1 / 3, 1]\<rparr>"
  have se: "get_start_and_end ?m = Inr (- 1, 1)"
    by (simp add: getters new_mobject_def)
  have l: "get_length ?m = Inr 2"
    using se by (simp add: get_length_def get_norm_cmod)
  have L: "(case Some 2 of None \<Rightarrow> get_default_tip_length ?m | Some l \<Rightarrow> Inr l) = Inr 2"
    by simp
  have nst: "\<not> has_start_tip ?m" "start_tip ?m \<noteq> Some (next_id ?m)"
    by (simp_all add: has_start_tip_def new_mobject_def)
  have w: "cis (angle_of_vector (points ?m ! (length (points ?m) - 2) - 1) - PI
                      - angle_of_vector (Complex (- 2) 0)) = - 1"
    using tip_rotation[of 2 "1 / 3" 1] by (simp add: sgn_eq)
  obtain m1 where m1: "add_tip (Some 2) False ?m = Inr m1"
    "points m1 = map (\<lambda>p. - 1 + (p - (- 1)) * ((1 + (- 1) * of_real 2 - (- 1)) / (1 - (- 1)))) (points ?m)"
    "tip m1 = Some (next_id ?m)" "start_tip m1 = start_tip ?m"
    "submobjects m1 = list_update_add (submobjects ?m) (next_id ?m)"
    "get_start_and_end m1 = Inr (- 1, 1)" "has_tip m1" "\<not> has_start_tip m1" "cls m1 = cls ?m"
    using add_tip_end_eq[OF L nst se _ _ w[symmetric] refl refl] by (simp; metis)
  let ?mr = "remove m1 (next_id ?m)"
  have nr: "\<not> has_tip ?mr" "\<not> has_start_tip ?mr"
    using m1(3,4,5)
    by (simp_all add: has_tip_def has_start_tip_def remove_def new_mobject_def
        list_update_add_def)
  have pr: "points ?mr = [- 1, - 1, - 1, - 1]"
    by (simp add: remove_def m1(2))
  have gr: "get_start_and_end ?mr = Inr (- 1, - 1)"
    using ends_getters(3)[OF nr] pr by simp
  have c: "cls ?mr = ArcBetweenPoints_cls"
    by (simp add: remove_def m1(9) new_mobject_def)
  have put: "put_start_and_end_on (- 1) 1 ?mr = Inl ClosedLoop"
    using c gr by (simp add: put_start_and_end_on_def Mobject_put_start_and_end_on_def)
  have pop: "pop_tips m1 = Inl ClosedLoop"
    using m1(7,8) put nr
    by (simp add: pop_tips_def m1(6) Let_def m1(3) list_update_add_def)
  show ?thesis
    using l m1(1,6) pop by (simp add: ArcBetweenPoints_straight)
qed

text \<open>
  \<^verbatim>\<open>Arrow.get_default_tip_length\<close> is the minimum of the configured \<^verbatim>\<open>tip_length\<close> and
  \<^verbatim>\<open>max_tip_length_to_length_ratio\<close> times the current length, and that is the length a new
  tip is made with. For an arrow with a tip at its end and none at its start, \<^verbatim>\<open>Arrow.scale\<close> by
  a factor \<open>k\<close> (not 0) detaches the tip, scales the body, and makes the tip again: over the
  reals the arrow then has length \<open>\<bar>k\<bar>\<close> times the old one and its tip has the length given by
  that minimum for the new length.
\<close>

lemma Arrow_scale_end_tip_length:
  assumes "cls m = Arrow_cls" and "get_length m = Inr l"
    and "cls a = Arrow_cls"
    and "tip a = Some i" and "submobjects a = [i]" and "start_tip a = None"
    and "i \<noteq> next_id a"
    and "store a i = Some t0" and "VMobject_get_start (tip_points t0) = Inr e"
    and "2 \<le> length (points a)" and "hd (points a) = s"
    and "last (points a) \<noteq> s" and "s \<noteq> e"
    and "0 \<le> tip_length a" and "0 \<le> max_tip_length_to_length_ratio a" and "k \<noteq> 0"
  shows "get_default_tip_length m = Inr (min (tip_length m) (max_tip_length_to_length_ratio m * l))
    \<and> get_unpositioned_tip None m
        = Inr (ArrowTip (min (tip_length m) (max_tip_length_to_length_ratio m * l)))
    \<and> get_length a = Inr (cmod (s - e))
    \<and> (\<exists>a' t. Arrow_scale k ap a = Inr a' \<and> tip a' = Some i \<and> store a' i = Some t
          \<and> tip_length a' = tip_length a
          \<and> max_tip_length_to_length_ratio a' = max_tip_length_to_length_ratio a
          \<and> get_length a' = Inr (\<bar>k\<bar> * cmod (s - e))
          \<and> ArrowTip_get_length t
              = Inr (min (tip_length a') (max_tip_length_to_length_ratio a' * (\<bar>k\<bar> * cmod (s - e))))
          \<and> ArrowTip_get_length t
              = Inr (if tip_length a \<le> max_tip_length_to_length_ratio a * (\<bar>k\<bar> * cmod (s - e))
                     then tip_length a
                     else max_tip_length_to_length_ratio a * (\<bar>k\<bar> * cmod (s - e))))"
proof -
  have d: "get_default_tip_length m = Inr (min (tip_length m) (max_tip_length_to_length_ratio m * l))"
    by (simp add: get_default_tip_length_def assms(1,2) Let_def)
  have u: "get_unpositioned_tip None m
        = Inr (ArrowTip (min (tip_length m) (max_tip_length_to_length_ratio m * l)))"
    by (simp add: get_unpositioned_tip_def d)
  have ps: "points a \<noteq> []" using assms(10) by auto
  have se: "get_start_and_end a = Inr (s, e)"
    by (rule pop_tips_end_tip(1)[OF assms(4,5,6,8,9) ps assms(11,12) refl])
  have la: "get_length a = Inr (cmod (s - e))" by (rule get_length_eq[OF se])
  have nn: "0 \<le> min (tip_length a) (max_tip_length_to_length_ratio a * (\<bar>k\<bar> * cmod (s - e)))"
    using assms(14,15) by simp
  obtain a' t where r: "Arrow_scale k ap a = Inr a'" "tip a' = Some i" "store a' i = Some t"
    "get_length a' = Inr (\<bar>k\<bar> * cmod (s - e))"
    "ArrowTip_get_length t
         = Inr \<bar>min (tip_length a) (max_tip_length_to_length_ratio a * (\<bar>k\<bar> * cmod (s - e)))\<bar>"
    "tip_length a' = tip_length a"
    "max_tip_length_to_length_ratio a' = max_tip_length_to_length_ratio a"
    using Arrow_scale_eq[OF assms(3-13,16), of ap] by metis
  have t1: "ArrowTip_get_length t
              = Inr (min (tip_length a') (max_tip_length_to_length_ratio a' * (\<bar>k\<bar> * cmod (s - e))))"
    using r(5) nn by (simp only: r(6,7) abs_of_nonneg)
  have t2: "ArrowTip_get_length t
              = Inr (if tip_length a \<le> max_tip_length_to_length_ratio a * (\<bar>k\<bar> * cmod (s - e))
                     then tip_length a
                     else max_tip_length_to_length_ratio a * (\<bar>k\<bar> * cmod (s - e)))"
    using t1 by (simp only: r(6,7) min_def)
  from d u la r(1,2,3,6,7,4) t1 t2 show ?thesis by blast
qed

lemma Arrow_scale_end_tip_length_example:
  "\<exists>a a1 t1 a2 t2. Arrow (Complex 0 0) (Complex 4 0) 0 = Inr a
     \<and> get_length a = Inr 4
     \<and> get_default_tip_length a = Inr (35 / 100)
     \<and> Arrow_scale (1 / 10) None a = Inr a1 \<and> tip a1 = Some 0 \<and> store a1 0 = Some t1
     \<and> get_length a1 = Inr (4 / 10) \<and> ArrowTip_get_length t1 = Inr (1 / 10)
     \<and> Arrow_scale 10 None a = Inr a2 \<and> tip a2 = Some 0 \<and> store a2 0 = Some t2
     \<and> get_length a2 = Inr 40 \<and> ArrowTip_get_length t2 = Inr (35 / 100)"
proof -
  obtain a t0 where a: "Arrow (Complex 0 0) (Complex 4 0) 0 = Inr a"
    "cls a = Arrow_cls" "tip a = Some 0" "submobjects a = [0]"
    "start_tip a = None" "next_id a = 1"
    "store a 0 = Some t0" "VMobject_get_start (tip_points t0) = Inr (Complex 4 0)"
    "ArrowTip_get_length t0 = Inr (35 / 100)"
    "length (points a) = 4" "hd (points a) = Complex 0 0"
    "last (points a) = Complex (365 / 100) 0"
    "tip_length a = 35 / 100" "max_tip_length_to_length_ratio a = 25 / 100"
    "get_length a = Inr 4"
    by (rule Arrow_0_4_state)
  have c: "cmod (Complex 0 0 - Complex 4 0) = 4" by (simp add: cmod_def)
  have h: "(0::nat) \<noteq> next_id a" "2 \<le> length (points a)" "last (points a) \<noteq> Complex 0 0"
    "Complex 0 0 \<noteq> Complex 4 0" "0 \<le> tip_length a" "0 \<le> max_tip_length_to_length_ratio a"
    by (simp_all add: a)
  note r = Arrow_scale_end_tip_length[OF a(2) a(15) a(2,3,4,5) h(1) a(7,8) h(2) a(11) h(3,4,5,6)]
  from r[of "1 / 10" None] r[of 10 None] a(1,15)
  show ?thesis by (simp add: c a(13,14)) blast
qed
section \<open>Claims\<close>

text \<open>
  C9. The line from (0,0) to (4,0), after \<^verbatim>\<open>set_length(2)\<close>, starts at (1,0) and ends at
  (3,0): the scale factor is 2/4 and \<^verbatim>\<open>scale\<close> acts about the centre (2,0).
\<close>

theorem Line_set_length_example:
  "bind_r (bind_r (Line (Complex 0 0) (Complex 4 0) 0 None) (set_length 2)) get_start_and_end
     = Inr (Complex 1 0, Complex 3 0)"
  by (simp add: Line_0_4 set_length_def getters new_mobject_def get_norm_def np_divide_def
      scale_def Mobject_scale_def get_center_def all_points_def center_of_def
      apply_points_function_def scale_about_def Let_def complex_eq_iff)

text \<open>
  C4 (as amended). \<^verbatim>\<open>account_for_buff\<close> leaves the line as it is when \<^verbatim>\<open>buff\<close> is 0 or
  the length is strictly less than \<open>2 * buff\<close> (the guard is \<^verbatim>\<open>length < 2 * self.buff\<close>). For
  \<open>0 < 2 * buff \<le> length\<close>, equality included, the path becomes its part between the proportions
  \<open>buff / length\<close> and \<open>1 - buff / length\<close>; for a straight line that is the segment between the
  two interpolated points, and the length of a straight line without tips is the distance of its
  ends.
\<close>

theorem account_for_buff_amended:
  assumes "(if path_arc m = Some 0 then get_length m else Inr (get_arc_length (points m))) = Inr len"
  shows "(buff m = 0 \<or> len < 2 * buff m \<longrightarrow> account_for_buff m = Inr m)
       \<and> (0 < buff m \<and> 2 * buff m \<le> len \<longrightarrow>
            account_for_buff m =
              Inr (m\<lparr>points := pointwise_become_partial (points m)
                                   (buff m / len) (1 - buff m / len)\<rparr>))
       \<and> (\<forall>s e. points m = set_points_as_corners [s, e] \<and> 0 < buff m \<and> 2 * buff m \<le> len \<longrightarrow>
            account_for_buff m =
              Inr (m\<lparr>points := set_points_as_corners
                     [interpolate s e (buff m / len), interpolate s e (1 - buff m / len)]\<rparr>))
       \<and> (\<forall>s e. points m = set_points_as_corners [s, e] \<and> \<not> has_tip m \<and> \<not> has_start_tip m \<longrightarrow>
            len = cmod (e - s))"
proof (intro conjI allI impI)
  show "account_for_buff m = Inr m" if "buff m = 0 \<or> len < 2 * buff m"
    using that assms by (auto simp add: account_for_buff_def)
next
  show g: "account_for_buff m =
      Inr (m\<lparr>points := pointwise_become_partial (points m) (buff m / len) (1 - buff m / len)\<rparr>)"
    if "0 < buff m \<and> 2 * buff m \<le> len"
    using that assms by (auto simp add: account_for_buff_def Let_def)
  fix s e
  assume h: "points m = set_points_as_corners [s, e] \<and> 0 < buff m \<and> 2 * buff m \<le> len"
  then have p: "0 < buff m / len" "buff m / len < 1" "0 < 1 - buff m / len" "1 - buff m / len < 1"
    by (simp_all add: field_simps)
  show "account_for_buff m =
      Inr (m\<lparr>points := set_points_as_corners
             [interpolate s e (buff m / len), interpolate s e (1 - buff m / len)]\<rparr>)"
    using g h pointwise_become_partial_straight[OF p, of s e] by simp
next
  fix s e
  assume h: "points m = set_points_as_corners [s, e] \<and> \<not> has_tip m \<and> \<not> has_start_tip m"
  show "len = cmod (e - s)"
    using assms h straight_length[of m s e] get_arc_length_straight[of s e]
    by (auto split: if_splits)
qed

theorem account_for_buff_amended_witness:
  "account_for_buff ((new_mobject Line_cls)
       \<lparr>start_attr := Complex 0 0, end_attr := Complex 4 0, buff := 1, path_arc := Some 0,
        points := set_points_as_corners [Complex 0 0, Complex 4 0]\<rparr>)
   = Inr ((new_mobject Line_cls)
       \<lparr>start_attr := Complex 0 0, end_attr := Complex 4 0, buff := 1, path_arc := Some 0,
        points := set_points_as_corners [Complex 1 0, Complex 3 0]\<rparr>)"
proof -
  let ?m = "(new_mobject Line_cls)
       \<lparr>start_attr := Complex 0 0, end_attr := Complex 4 0, buff := 1, path_arc := Some 0,
        points := set_points_as_corners [Complex 0 0, Complex 4 0]\<rparr>"
  have l: "(if path_arc ?m = Some 0 then get_length ?m else Inr (get_arc_length (points ?m))) = Inr 4"
    by (simp add: new_mobject_def set_points_as_corners_pair getters get_norm_def)
  note t = account_for_buff_amended[OF l, THEN conjunct2, THEN conjunct2, THEN conjunct1,
      rule_format, of "Complex 0 0" "Complex 4 0"]
  have "account_for_buff ?m =
      Inr (?m\<lparr>points := set_points_as_corners
             [interpolate (Complex 0 0) (Complex 4 0) (buff ?m / 4),
              interpolate (Complex 0 0) (Complex 4 0) (1 - buff ?m / 4)]\<rparr>)"
    by (rule t) (simp add: new_mobject_def)
  moreover have "interpolate (Complex 0 0) (Complex 4 0) (1 / 4) = Complex 1 0"
    and "interpolate (Complex 0 0) (Complex 4 0) (1 - 1 / 4) = Complex 3 0"
    by (simp_all add: interpolate_def complex_eq_iff)
  ultimately show ?thesis
    by (simp add: new_mobject_def)
qed

text \<open>
  At the boundary \<open>2 * buff = length\<close> the guard does not fire: the line from (0,0) to (4,0)
  with \<^verbatim>\<open>buff = 2\<close> is trimmed to the single point (2,0).
\<close>

theorem account_for_buff_boundary_counterexample:
  "bind_r (Line (Complex 0 0) (Complex 4 0) 2 (Some 0)) get_start_and_end
     = Inr (Complex 2 0, Complex 2 0)"
  by (simp add: Line_def Line_generate_points_def account_for_buff_def new_mobject_def
      set_points_as_corners_pair interpolate_def getters get_norm_def
      pointwise_become_partial_def get_num_curves_def integer_interpolate_def
      get_nth_curve_points_def pbp4 Let_def bezier4 bezier3 bezier2 complex_eq_iff
      power2_eq_square power3_eq_cube)

text \<open>
  C7. \<^verbatim>\<open>Line.set_length\<close> divides by the current length without a guard. On a line of length
  zero the quotient is not a number and \<^verbatim>\<open>Mobject.scale\<close> writes it into the points: no exception
  is raised and the call is not a no-op. (\<^verbatim>\<open>Arrow.scale\<close> has the guard; see
  \<open>Arrow_set_length_zero_length\<close>.)
\<close>

theorem set_length_zero_length_line:
  "bind_r (Line p p 0 None) (set_length l) = Inl NonFiniteGeometry"
  by (simp add: Line_def Line_generate_points_def account_for_buff_def new_mobject_def
      set_points_as_corners_pair interpolate_same set_length_def getters get_norm_def
      np_divide_def scale_def)

text \<open>
  C5. \<^verbatim>\<open>get_arc_center\<close> catches the failure of \<^verbatim>\<open>line_intersection\<close> and reports it in
  \<^verbatim>\<open>_failed_to_get_center\<close> (\<open>get_arc_center_parallel\<close>). But \<^verbatim>\<open>ArcBetweenPoints\<close> never asks:
  \<^verbatim>\<open>Arc.generate_points\<close> has replaced the radius \<^verbatim>\<open>None\<close> by 1.0 before the test
  \<^verbatim>\<open>self.radius is None\<close>, so the recorded radius of an arc given by its angle is 1
  (\<open>ArcBetweenPoints_radius_not_inferred\<close>). For the straight arc from \<^verbatim>\<open>LEFT\<close> to \<^verbatim>\<open>RIGHT\<close> with
  angle 0 the radius stays 1, although centre inference on its points fails.
\<close>

theorem ArcBetweenPoints_straight_radius:
  "bind_r (ArcBetweenPoints LEFT RIGHT 0 None)
     (\<lambda>m. Inr (points m, radius m, failed_to_get_center m))
     = Inr ([- 1, - 1 / 3, 1 / 3, 1], RFin 1, False)
   \<and> bind_r (ArcBetweenPoints LEFT RIGHT 0 None)
       (\<lambda>m. bind_r (get_arc_center m) (\<lambda>(c, m'). Inr (c, failed_to_get_center m')))
     = Inr (ORIGIN, True)"
  by (simp add: ArcBetweenPoints_straight new_mobject_def get_arc_center_def Let_def
      line_intersection_def cross2_def rotate_vector_def TAU_def)



text \<open>
  C1. With radius 0 and two equal points the guard \<^verbatim>\<open>self.radius < halfdist\<close> does not fire
  (\<open>|r|\<close> is half the distance, both are 0), and the constructor then divides by the radius:
  \<^verbatim>\<open>ZeroDivisionError\<close> instead of a path from \<open>p1\<close> to \<open>p2\<close>.
\<close>

theorem ArcBetweenPoints_zero_radius_raises:
  "dist (Complex 0 0) (Complex 0 0) / 2 \<le> \<bar>0 :: real\<bar>
   \<and> ArcBetweenPoints (Complex 0 0) (Complex 0 0) (TAU / 4) (Some 0) = Inl ZeroDivisionError"
  by (simp add: ArcBetweenPoints_def ArcBetweenPoints_post_init_def Let_def get_norm_def)

text \<open>
  C8. A line that got a tip and had it detached again has no tip (\<^verbatim>\<open>has_tip\<close> and
  \<^verbatim>\<open>has_start_tip\<close> are false), but \<^verbatim>\<open>get_tip\<close> raises nothing: \<^verbatim>\<open>get_tips\<close> tests only that
  the attribute exists, and \<^verbatim>\<open>pop_tips\<close> leaves the attribute in place, so the detached tip
  is returned.
\<close>

theorem get_tip_after_pop_tips:
  "bind_r (bind_r (bind_r (Line (Complex 0 0) (Complex 4 0) 0 None) (add_tip None False)) pop_tips)
     (\<lambda>(tips, m). Inr (tips, has_tip m, has_start_tip m, get_tip m))
   = Inr ([0], False, False, Inr 0)"
proof -
  obtain m where m: "Line (Complex 0 0) (Complex 4 0) 0 None = Inr m"
    "cls m = Line_cls" "tip m = None" "start_tip m = None" "submobjects m = []" "next_id m = 0"
    "points m = [Complex 0 0, Complex (4 / 3) 0, Complex (8 / 3) 0, Complex 4 0]"
    "tip_length m = 35 / 100" "get_start_and_end m = Inr (Complex 0 0, Complex 4 0)"
    "\<not> has_tip m" "\<not> has_start_tip m"
    by (rule Line_0_4_state)
  have L: "(case None of None \<Rightarrow> get_default_tip_length m | Some l \<Rightarrow> Inr l) = Inr (35 / 100)"
    by (simp add: get_default_tip_length_def m(2,8))
  obtain t where t: "create_tip None False m = Inr t"
    "ArrowTip_get_base t = Complex 4 0 + sgn (Complex (8 / 3) 0 - Complex 4 0) * of_real (35 / 100)"
    by (rule straight_tip_base[OF L _ m(10) m(7)]) simp_all
  have "Complex (8 / 3) 0 - Complex 4 0 = of_real (- 4 / 3)"
    by (simp add: complex_eq_iff)
  then have sg: "sgn (Complex (8 / 3) 0 - Complex 4 0) = - 1"
    by (simp only: sgn_of_real) simp
  have b: "ArrowTip_get_base t \<noteq> Complex 0 0"
    by (simp add: t(2) sg complex_eq_iff)
  obtain m1 m2 where r: "add_tip None False m = Inr m1" "pop_tips m1 = Inr ([next_id m], m2)"
    "\<not> has_tip m2" "\<not> has_start_tip m2" "tip m2 = Some (next_id m)" "start_tip m2 = start_tip m"
    using round_trip_end[OF m(10,11) _ _ m(9) _ _ t(1) b] m(3,4,7) by (simp; metis)
  have "get_tip m2 = Inr 0"
    by (simp add: get_tip_def get_tips_def r(5,6) m(4,6) list_update_add_def)
  with m(1) r show ?thesis by (simp add: m(6))
qed

text \<open>
  C6 (as amended). When \<^verbatim>\<open>add_tip\<close> attaches a tip at an end that already has one, the
  attribute of that end (\<^verbatim>\<open>tip\<close> or \<^verbatim>\<open>start_tip\<close>) names the new tip, so each end has at most
  one tip by name and the other end keeps its own; the tip attached before is not removed: it
  is still among the children of the curve, next to the new one.
\<close>

theorem add_tip_second_tip_keeps_first:
  assumes "add_tip tlen at_start m = Inr m'"
    and "(if at_start then start_tip m else tip m) = Some i"
    and "i \<in> set (submobjects m)" and "i \<noteq> next_id m"
  shows "(if at_start then start_tip m' else tip m') = Some (next_id m)
         \<and> (if at_start then tip m' else start_tip m') = (if at_start then tip m else start_tip m)
         \<and> (if at_start then has_start_tip m' else has_tip m')
         \<and> set (submobjects m') = insert (next_id m) (set (submobjects m))
         \<and> i \<in> set (submobjects m')"
  using add_tip_struct[OF assms(1)] assms(2-4)
  by (auto simp add: has_tip_def has_start_tip_def list_update_add_def)

theorem add_tip_second_tip_keeps_first_witness:
  "\<exists>m m1 m2. Line (Complex 0 0) (Complex 4 0) 0 None = Inr m
     \<and> add_tip None False m = Inr m1 \<and> tip m1 = Some 0 \<and> 0 \<in> set (submobjects m1)
     \<and> add_tip None False m1 = Inr m2 \<and> tip m2 = Some 1 \<and> has_tip m2
     \<and> set (submobjects m2) = {0, 1}"
proof -
  obtain m m1 m2 where s: "Line (Complex 0 0) (Complex 4 0) 0 None = Inr m"
    "add_tip None False m = Inr m1" "add_tip None False m1 = Inr m2"
    "next_id m = 0" "tip m1 = Some 0" "submobjects m1 = [0]" "next_id m1 = 1"
    by (rule Line_0_4_two_tips)
  from add_tip_second_tip_keeps_first[OF s(3), of 0] s
  show ?thesis by auto
qed

theorem add_tip_second_tip_counterexample:
  "bind_r (bind_r (bind_r (Line (Complex 0 0) (Complex 4 0) 0 None) (add_tip None False))
       (\<lambda>m. Inr (has_tip m, tip m, submobjects m))) Inr = Inr (True, Some 0, [0])
   \<and> bind_r (bind_r (bind_r (Line (Complex 0 0) (Complex 4 0) 0 None) (add_tip None False))
       (add_tip None False)) (\<lambda>m. Inr (tip m, submobjects m)) = Inr (Some 1, [0, 1])"
proof -
  obtain m m1 m2 where s: "Line (Complex 0 0) (Complex 4 0) 0 None = Inr m"
    "add_tip None False m = Inr m1" "add_tip None False m1 = Inr m2"
    "next_id m = 0" "tip m1 = Some 0" "submobjects m1 = [0]" "next_id m1 = 1"
    "has_tip m1" "tip m2 = Some 1" "submobjects m2 = [0, 1]"
    by (rule Line_0_4_two_tips)
  then show ?thesis by simp
qed

end
